theory Spec2Isabelle
  imports Complex_Main "HOL-Library.Word" "HOL-Library.Multiset"
begin

section \<open>Common data\<close>

text \<open>
  A Go \<open>string\<close> is a byte sequence; it is modelled as \<open>string\<close> (a list of 8-bit
  characters), so \<open>length\<close> is Go's \<open>len\<close> and \<open>take n\<close> is the byte slice \<open>s[:n]\<close>.
  A \<open>[]rune\<close> is a list of Unicode code points.  Go's \<open>int\<close> is modelled as
  \<open>int\<close>; the lengths and counters below stay far from the 64-bit range.
\<close>

type_synonym rune = nat

text \<open>Every error return and panic of the modelled functions, one constructor per site.\<close>

datatype error =
    SliceBoundsOutOfRange
  | ErrTagListUnavailable
  | ErrCreateEmbedding
  | ErrEsSearch
  | ErrEsStatus
  | ErrEsDecode
  | ErrFileInfos
  | ErrDownload
  | ErrReadObject
  | ErrEmptyFile
  | ErrTika
  | ErrEmptyText
  | ErrNoChunks
  | ErrBatchCreate
  | ErrFindVectors
  | ErrEmbedChunk int
  | ErrIndexChunk int
  | ErrRecordNotFound
  | ErrRecordLookup
  | ErrRedis
  | ErrIncomplete int int
  | ErrCopyObject
  | ErrComposeObject
  | ErrUpdateStatus
  | ErrNotFoundOrNotOwner
  | ErrNoPermission
  | ErrDeletePartial

section \<open>Strings and code points\<close>

text \<open>
  The conversions \<open>[]rune(s)\<close> and \<open>string(runes)\<close> follow Go's UTF-8 decoder and encoder
  (\<open>utf8.DecodeRuneInString\<close>, \<open>utf8.AppendRune\<close>): an invalid byte decodes to
  \<open>RuneError\<close> with width one, a surrogate or out-of-range code point encodes as
  \<open>RuneError\<close>.
\<close>

definition RuneError :: rune where
  "RuneError = 0xFFFD"

fun DecodeRune :: "nat list \<Rightarrow> rune \<times> nat" where
  "DecodeRune [] = (RuneError, 0)"
| "DecodeRune (s0 # rest) =
     (if s0 < 0x80 then (s0, 1)
      else if s0 < 0xC2 \<or> 0xF4 < s0 then (RuneError, 1)
      else
        (let sz = (if s0 < 0xE0 then 2 else if s0 < 0xF0 then 3 else 4 :: nat);
             lo = (if s0 = 0xE0 then 0xA0 else if s0 = 0xF0 then 0x90 else 0x80 :: nat);
             hi = (if s0 = 0xED then 0x9F else if s0 = 0xF4 then 0x8F else 0xBF :: nat)
         in if length rest + 1 < sz then (RuneError, 1)
            else
              (let s1 = rest ! 0
               in if s1 < lo \<or> hi < s1 then (RuneError, 1)
                  else if sz \<le> 2 then ((s0 mod 0x20) * 0x40 + s1 mod 0x40, 2)
                  else
                    (let s2 = rest ! 1
                     in if s2 < 0x80 \<or> 0xBF < s2 then (RuneError, 1)
                        else if sz \<le> 3
                        then ((s0 mod 0x10) * 0x1000 + (s1 mod 0x40) * 0x40 + s2 mod 0x40, 3)
                        else
                          (let s3 = rest ! 2
                           in if s3 < 0x80 \<or> 0xBF < s3 then (RuneError, 1)
                              else ((s0 mod 8) * 0x40000 + (s1 mod 0x40) * 0x1000
                                      + (s2 mod 0x40) * 0x40 + s3 mod 0x40, 4))))))"

function decode_runes :: "nat list \<Rightarrow> rune list" where
  "decode_runes [] = []"
| "decode_runes (b # bs) =
     fst (DecodeRune (b # bs)) # decode_runes (drop (snd (DecodeRune (b # bs)) - 1) bs)"
  by pat_completeness auto
termination
  by (relation "measure length") (simp_all del: DecodeRune.simps)

text \<open>\<open>[]rune(s)\<close>.\<close>

definition runes_of :: "string \<Rightarrow> rune list" where
  "runes_of s = decode_runes (map of_char s)"

definition EncodeRune :: "rune \<Rightarrow> nat list" where
  "EncodeRune r =
     (if r \<le> 0x7F then [r]
      else if r \<le> 0x7FF then [0xC0 + r div 0x40, 0x80 + r mod 0x40]
      else if 0x10FFFF < r \<or> (0xD800 \<le> r \<and> r \<le> 0xDFFF) then [0xEF, 0xBF, 0xBD]
      else if r \<le> 0xFFFF
      then [0xE0 + r div 0x1000, 0x80 + (r div 0x40) mod 0x40, 0x80 + r mod 0x40]
      else [0xF0 + r div 0x40000, 0x80 + (r div 0x1000) mod 0x40,
            0x80 + (r div 0x40) mod 0x40, 0x80 + r mod 0x40])"

text \<open>\<open>string(runes)\<close>.\<close>

definition string_of_runes :: "rune list \<Rightarrow> string" where
  "string_of_runes rs = map char_of (concat (map EncodeRune rs))"

text \<open>\<open>utf8.RuneCountInString\<close>.\<close>

definition RuneCountInString :: "string \<Rightarrow> nat" where
  "RuneCountInString s = length (runes_of s)"

text \<open>The verbs \<open>%d\<close> of \<open>fmt.Sprintf\<close> and \<open>strconv.FormatUint(_, 10)\<close>: decimal digits.\<close>

fun digits :: "nat \<Rightarrow> string" where
  "digits n = (if n < 10 then [char_of (48 + n)] else digits (n div 10) @ [char_of (48 + n mod 10)])"

declare digits.simps [simp del]

definition Itoa :: "int \<Rightarrow> string" where
  "Itoa i = (if i < 0 then CHR ''-'' # digits (nat (- i)) else digits (nat i))"

text \<open>The number a decimal string denotes (the inverse of \<open>digits\<close>).\<close>

definition digits_value :: "string \<Rightarrow> nat" where
  "digits_value s = foldl (\<lambda>a c. 10 * a + (of_char c - 48)) 0 s"

section \<open>Users, organisation tags and the effective tag set (\<open>GetUserEffectiveOrgTags\<close>)\<close>

text \<open>\<open>model.User\<close>: \<open>OrgTags\<close> is the comma-separated list of the declared tag ids.\<close>

record User =
  uID :: nat
  uUsername :: string
  uRole :: string
  uOrgTags :: string
  uPrimaryOrg :: string

text \<open>\<open>model.OrganizationTag\<close>: \<open>ParentTag\<close> is a nullable pointer (\<open>None\<close> is \<open>nil\<close>).\<close>

record OrganizationTag =
  TagID :: string
  TagName :: string
  ParentTag :: "string option"

text \<open>\<open>strings.Split(s, ",")\<close>: the fields between the commas; never an empty list.\<close>

fun Split_comma :: "string \<Rightarrow> string list" where
  "Split_comma [] = [[]]"
| "Split_comma (c # cs) =
     (if c = CHR '','' then [] # Split_comma cs
      else (case Split_comma cs of
              [] \<Rightarrow> [[c]]
            | w # ws \<Rightarrow> (c # w) # ws))"

text \<open>
  \<open>parentMap[tag.TagID] = tag.ParentTag\<close> for each tag in table order: a later row with
  the same id overwrites an earlier one, so the lookup finds the last row of that id.
\<close>

definition parentMap :: "OrganizationTag list \<Rightarrow> (string \<rightharpoonup> string option)" where
  "parentMap allTags = map_of (rev (map (\<lambda>tag. (TagID tag, ParentTag tag)) allTags))"

text \<open>
  The first loop: each declared tag not yet in \<open>effectiveTags\<close> is added to it and to the
  queue.  \<open>effectiveTags\<close> is a Go map used as a set; it is modelled by the list of its keys
  in insertion order (a key is only ever inserted when absent).
\<close>

definition enqueue_initial :: "string list \<Rightarrow> string list \<times> string list" where
  "enqueue_initial initialTags =
     fold (\<lambda>tagID (effectiveTags, queue).
             if tagID \<notin> set effectiveTags
             then (effectiveTags @ [tagID], queue @ [tagID])
             else (effectiveTags, queue))
          initialTags ([], [])"

text \<open>The second loop: \<open>for len(queue) > 0\<close>, walking the parent edges upwards.\<close>

function walk_parents :: "OrganizationTag list \<Rightarrow> string list \<Rightarrow> string list \<Rightarrow> string list" where
  "walk_parents allTags queue effectiveTags =
     (case queue of
        [] \<Rightarrow> effectiveTags
      | currentTagID # rest \<Rightarrow>
          (case parentMap allTags currentTagID of
             Some (Some parentTagID) \<Rightarrow>
               if parentTagID \<notin> set effectiveTags
               then walk_parents allTags (rest @ [parentTagID]) (effectiveTags @ [parentTagID])
               else walk_parents allTags rest effectiveTags
           | _ \<Rightarrow> walk_parents allTags rest effectiveTags))"
  by pat_completeness auto
termination
proof (relation "measure (\<lambda>(allTags, queue, effectiveTags).
         2 * card (set (map ParentTag allTags) - Some ` set effectiveTags) + length queue)")
  show "wf (measure (\<lambda>(allTags, queue, effectiveTags).
         2 * card (set (map ParentTag allTags) - Some ` set effectiveTags) + length queue))"
    by simp
next
  fix allTags :: "OrganizationTag list" and queue effectiveTags :: "string list"
    and currentTagID rest x2 parentTagID
  assume q: "queue = currentTagID # rest"
    and pm: "parentMap allTags currentTagID = Some x2" "x2 = Some parentTagID"
    and new: "parentTagID \<notin> set effectiveTags"
  have "(currentTagID, Some parentTagID) \<in> set (rev (map (\<lambda>tag. (TagID tag, ParentTag tag)) allTags))"
    using pm unfolding parentMap_def by (auto dest: map_of_SomeD)
  then have mem: "Some parentTagID \<in> set (map ParentTag allTags)" by auto
  let ?P = "set (map ParentTag allTags)"
  have "?P - Some ` set (effectiveTags @ [parentTagID])
        = (?P - Some ` set effectiveTags) - {Some parentTagID}" by auto
  moreover have "Some parentTagID \<in> ?P - Some ` set effectiveTags" using mem new by auto
  moreover have "finite (?P - Some ` set effectiveTags)" by simp
  ultimately have "card (?P - Some ` set (effectiveTags @ [parentTagID]))
        < card (?P - Some ` set effectiveTags)"
    by (metis card_Diff1_less)
  then show "((allTags, rest @ [parentTagID], effectiveTags @ [parentTagID]),
              (allTags, queue, effectiveTags))
        \<in> measure (\<lambda>(allTags, queue, effectiveTags).
         2 * card (set (map ParentTag allTags) - Some ` set effectiveTags) + length queue)"
    using q by simp
qed auto

text \<open>
  \<open>GetUserEffectiveOrgTags\<close>.  The first argument is what \<open>orgTagRepo.FindAll()\<close> returns.
  The last loop ranges over the Go map, whose iteration order is unspecified: the model
  returns the keys in insertion order, and the properties proved below are stated for
  every list that enumerates these keys once each.
\<close>

definition GetUserEffectiveOrgTags ::
  "error + OrganizationTag list \<Rightarrow> User \<Rightarrow> error + string list" where
  "GetUserEffectiveOrgTags findAll user =
     (if uOrgTags user = [] then Inr []
      else (case findAll of
              Inl err \<Rightarrow> Inl ErrTagListUnavailable
            | Inr allTags \<Rightarrow>
                (let (effectiveTags, queue) = enqueue_initial (Split_comma (uOrgTags user))
                 in Inr (walk_parents allTags queue effectiveTags))))"

text \<open>
  The specification side of the access resolver: the user's declared tags, the parent
  relation of the tag table, and the reflexive-transitive closure.
\<close>

definition declared_tags :: "User \<Rightarrow> string list" where
  "declared_tags user = (if uOrgTags user = [] then [] else Split_comma (uOrgTags user))"

definition tag_parent_rel :: "OrganizationTag list \<Rightarrow> (string \<times> string) set" where
  "tag_parent_rel allTags =
     {(c, p). \<exists>tag \<in> set allTags. TagID tag = c \<and> ParentTag tag = Some p}"

definition closure_of_declared :: "OrganizationTag list \<Rightarrow> User \<Rightarrow> string set" where
  "closure_of_declared allTags user = (tag_parent_rel allTags)\<^sup>* `` set (declared_tags user)"

section \<open>Chat context block (\<open>buildContextText\<close>)\<close>

text \<open>\<open>model.SearchResponseDTO\<close>, one retrieval hit as returned by the search service.\<close>

record SearchResponseDTO =
  dto_FileMD5 :: string
  dto_FileName :: string
  dto_ChunkID :: int
  dto_TextContent :: string
  dto_Score :: real
  dto_UserID :: string
  dto_OrgTag :: string
  dto_IsPublic :: bool

definition maxSnippetLen :: nat where
  "maxSnippetLen = 1000"

text \<open>The string literal of the horizontal ellipsis U+2026, three bytes in UTF-8.\<close>

definition ellipsis :: string where
  "ellipsis = [CHR 0xE2, CHR 0x80, CHR 0xA6]"

text \<open>
  The body of the loop over the hits, for the zero-based index \<open>i\<close>: \<open>len(snippet)\<close> is the
  byte length of the string and \<open>snippet[:maxSnippetLen]\<close> its first bytes.
\<close>

definition context_line :: "nat \<Rightarrow> SearchResponseDTO \<Rightarrow> string" where
  "context_line i r =
     (let snippet = dto_TextContent r;
          snippet = (if length snippet > maxSnippetLen
                     then take maxSnippetLen snippet @ ellipsis else snippet);
          fileLabel = dto_FileName r;
          fileLabel = (if fileLabel = [] then ''unknown'' else fileLabel)
      in ''['' @ Itoa (int i + 1) @ ''] ('' @ fileLabel @ '') '' @ snippet @ [CHR 0x0A])"

definition buildContextText :: "SearchResponseDTO list \<Rightarrow> string" where
  "buildContextText searchResults =
     (if length searchResults = 0 then []
      else concat (map (\<lambda>(i, r). context_line i r) (enumerate 0 searchResults)))"

section \<open>Hybrid search (\<open>normalizeQuery\<close>, \<open>buildPhraseShould\<close>, \<open>HybridSearch\<close>)\<close>

subsection \<open>Query normalisation\<close>

text \<open>
  The Unicode tables of the Go library that \<open>normalizeQuery\<close> consults are parameters:
  the lower-case mapping of the non-ASCII code points (\<open>unicode.CaseRanges\<close>) and the
  script table \<open>unicode.Han\<close> (which does not contain \<open>RuneError\<close>).
\<close>

record unicode_tables =
  lowerTable :: "rune \<Rightarrow> rune"
  isHan :: "rune \<Rightarrow> bool"

text \<open>\<open>unicode.ToLower\<close> and \<open>strings.ToLower\<close> (\<open>strings.Map\<close> over the decoded runes).\<close>

definition unicode_ToLower :: "unicode_tables \<Rightarrow> rune \<Rightarrow> rune" where
  "unicode_ToLower tabs r =
     (if r \<le> 0x7F then (if 0x41 \<le> r \<and> r \<le> 0x5A then r + 0x20 else r)
      else lowerTable tabs r)"

definition ToLower :: "unicode_tables \<Rightarrow> string \<Rightarrow> string" where
  "ToLower tabs s = string_of_runes (map (unicode_ToLower tabs) (runes_of s))"

text \<open>
  \<open>strings.ReplaceAll(s, old, new)\<close> for a non-empty \<open>old\<close> (every stop phrase is
  non-empty): the non-overlapping occurrences of \<open>old\<close>, leftmost first.
\<close>

function ReplaceAll :: "string \<Rightarrow> string \<Rightarrow> string \<Rightarrow> string" where
  "ReplaceAll [] old new = []"
| "ReplaceAll (c # cs) old new =
     (if old \<noteq> [] \<and> take (length old) (c # cs) = old
      then new @ ReplaceAll (drop (length old) (c # cs)) old new
      else c # ReplaceAll cs old new)"
  by pat_completeness auto
termination
  by (relation "measure (\<lambda>(s, old, new). length s)") auto

text \<open>
  The stop phrases of the source, given by their code points, in the source's order; the
  last two are the full-width and the ASCII question mark.
\<close>

definition stopPhrases :: "string list" where
  "stopPhrases = map string_of_runes
     [[0x662F, 0x8C01], [0x662F, 0x4EC0, 0x4E48], [0x662F, 0x5565], [0x8BF7, 0x95EE],
      [0x600E, 0x4E48], [0x5982, 0x4F55], [0x544A, 0x8BC9, 0x6211], [0x4E25, 0x683C],
      [0x6309, 0x7167], [0x4E0D, 0x8981, 0x8865, 0x5145], [0x7684, 0x533A, 0x522B],
      [0x533A, 0x522B], [0x5417], [0x5462], [0xFF1F], [0x3F]]"

text \<open>
  A regular expression of the form \<open>C+\<close> for a character class \<open>C\<close>, used with
  \<open>ReplaceAllString(_, " ")\<close>: every maximal run of members of the class becomes one
  replacement element.
\<close>

function replace_runs :: "('a \<Rightarrow> bool) \<Rightarrow> 'a \<Rightarrow> 'a list \<Rightarrow> 'a list" where
  "replace_runs C sp [] = []"
| "replace_runs C sp (x # xs) =
     (if C x then sp # replace_runs C sp (dropWhile C xs) else x # replace_runs C sp xs)"
  by pat_completeness auto
termination
  by (relation "measure (\<lambda>(C, sp, xs). length xs)")
     (auto simp: length_dropWhile_le less_Suc_eq_le)

text \<open>The Perl class \<open>\s\<close> of Go's regexp syntax: tab, newline, form feed, return, space.\<close>

definition re_space :: "rune \<Rightarrow> bool" where
  "re_space r = (r = 0x09 \<or> r = 0x0A \<or> r = 0x0C \<or> r = 0x0D \<or> r = 0x20)"

text \<open>\<open>reKeep\<close> is \<open>[^\p{Han}a-z0-9\s]+\<close>; the regexp engine matches decoded runes.\<close>

definition reKeep_class :: "unicode_tables \<Rightarrow> rune \<Rightarrow> bool" where
  "reKeep_class tabs r =
     (\<not> (isHan tabs r \<or> (0x61 \<le> r \<and> r \<le> 0x7A) \<or> (0x30 \<le> r \<and> r \<le> 0x39) \<or> re_space r))"

definition reKeep_ReplaceAllString :: "unicode_tables \<Rightarrow> string \<Rightarrow> string" where
  "reKeep_ReplaceAllString tabs s =
     string_of_runes (replace_runs (reKeep_class tabs) 0x20 (runes_of s))"

text \<open>\<open>reSpace\<close> is \<open>\s+\<close>; its members are single ASCII bytes.\<close>

definition reSpace_ReplaceAllString :: "string \<Rightarrow> string" where
  "reSpace_ReplaceAllString s = replace_runs (\<lambda>c. re_space (of_char c)) (CHR '' '') s"

text \<open>
  \<open>unicode.IsSpace\<close> and \<open>strings.TrimSpace\<close>; the argument of \<open>TrimSpace\<close> in
  \<open>normalizeQuery\<close> is always the encoding of a rune sequence.
\<close>

definition unicode_IsSpace :: "rune \<Rightarrow> bool" where
  "unicode_IsSpace r =
     (r = 0x09 \<or> r = 0x0A \<or> r = 0x0B \<or> r = 0x0C \<or> r = 0x0D \<or> r = 0x20
      \<or> r = 0x85 \<or> r = 0xA0 \<or> r = 0x1680 \<or> (0x2000 \<le> r \<and> r \<le> 0x200A)
      \<or> r = 0x2028 \<or> r = 0x2029 \<or> r = 0x202F \<or> r = 0x205F \<or> r = 0x3000)"

definition TrimSpace :: "string \<Rightarrow> string" where
  "TrimSpace s =
     string_of_runes (rev (dropWhile unicode_IsSpace (rev (dropWhile unicode_IsSpace (runes_of s)))))"

text \<open>\<open>normalizeQuery\<close>: the normalised query and the core phrase.\<close>

definition normalizeQuery :: "unicode_tables \<Rightarrow> string \<Rightarrow> string \<times> string" where
  "normalizeQuery tabs q =
     (if q = [] then (q, [])
      else
        (let lower = ToLower tabs q;
             lower = fold (\<lambda>sp lower. ReplaceAll lower sp '' '') stopPhrases lower;
             kept = reKeep_ReplaceAllString tabs lower;
             kept = TrimSpace (reSpace_ReplaceAllString kept)
         in if kept = [] then (q, []) else (kept, kept)))"

subsection \<open>The query sent to the indexer\<close>

type_synonym vector = "real list"

text \<open>\<open>model.EsDocument\<close> and \<open>model.FileUpload\<close>.\<close>

record EsDocument =
  es_VectorID :: string
  es_FileMD5 :: string
  es_ChunkID :: int
  es_TextContent :: string
  es_Vector :: vector
  es_ModelVersion :: string
  es_UserID :: nat
  es_OrgTag :: string
  es_IsPublic :: bool

record FileUpload =
  fu_ID :: nat
  fu_FileMD5 :: string
  fu_FileName :: string
  fu_TotalSize :: int
  fu_Status :: int
  fu_UserID :: nat
  fu_OrgTag :: string
  fu_IsPublic :: bool

text \<open>
  The JSON body built in \<open>HybridSearch\<close> (the map \<open>esQuery\<close>), field by field: the
  \<open>knn\<close> clause, \<open>query.bool.must\<close>, \<open>query.bool.filter.bool\<close>, \<open>query.bool.should\<close>,
  the \<open>rescore\<close> clause and \<open>size\<close>.
\<close>

datatype filter_clause =
    Term_user_id nat
  | Term_is_public bool
  | Terms_org_tag "string list"

record match_phrase_clause =
  mp_query :: string
  mp_boost :: real

record es_query =
  knn_field :: string
  knn_query_vector :: vector
  knn_k :: int
  knn_num_candidates :: int
  must_match_text_content :: string
  filter_should :: "filter_clause list"
  filter_minimum_should_match :: int
  bool_should :: "match_phrase_clause list option"
  rescore_window_size :: int
  rescore_match_query :: string
  rescore_match_operator :: string
  rescore_query_weight :: real
  rescore_rescore_query_weight :: real
  q_size :: int

text \<open>\<open>buildPhraseShould\<close>: \<open>nil\<close> for the empty phrase.\<close>

definition buildPhraseShould :: "string \<Rightarrow> match_phrase_clause list option" where
  "buildPhraseShould phrase =
     (if phrase = [] then None else Some [\<lparr>mp_query = phrase, mp_boost = 3.0\<rparr>])"

text \<open>
  The meaning the indexer gives to the filter: a \<open>term\<close> clause holds when the field has
  that value, a \<open>terms\<close> clause when the field has one of the values, and the \<open>bool\<close>
  filter admits a document when at least \<open>minimum_should_match\<close> of its \<open>should\<close>
  clauses hold.
\<close>

fun clause_holds :: "filter_clause \<Rightarrow> EsDocument \<Rightarrow> bool" where
  "clause_holds (Term_user_id u) doc = (es_UserID doc = u)"
| "clause_holds (Term_is_public b) doc = (es_IsPublic doc = b)"
| "clause_holds (Terms_org_tag tags) doc = (es_OrgTag doc \<in> set tags)"

definition filter_admits :: "es_query \<Rightarrow> EsDocument \<Rightarrow> bool" where
  "filter_admits q doc =
     (filter_minimum_should_match q
        \<le> int (length (filter (\<lambda>c. clause_holds c doc) (filter_should q))))"

subsection \<open>\<open>HybridSearch\<close>\<close>

text \<open>
  What the collaborators of the search service answer: the tag repository, the embedding
  client, the indexer and the upload repository.
\<close>

datatype es_reply =
    EsTransportError
  | EsErrorStatus
  | EsUndecodable
  | EsHits "(EsDocument \<times> real) list"

record search_env =
  env_tables :: unicode_tables
  env_FindAll :: "error + OrganizationTag list"
  env_CreateEmbedding :: "string \<Rightarrow> vector option"
  env_Search :: "es_query \<Rightarrow> es_reply"
  env_FindBatchByMD5s :: "string list \<Rightarrow> FileUpload list option"

text \<open>Step 1: the effective tags; on an error of the resolver the search goes on with none.\<close>

definition userEffectiveTags :: "search_env \<Rightarrow> User \<Rightarrow> string list" where
  "userEffectiveTags env user =
     (case GetUserEffectiveOrgTags (env_FindAll env) user of
        Inl err \<Rightarrow> []
      | Inr tags \<Rightarrow> tags)"

text \<open>Step 4: the map \<open>esQuery\<close>.\<close>

definition build_esQuery ::
  "vector \<Rightarrow> int \<Rightarrow> string \<Rightarrow> string \<Rightarrow> nat \<Rightarrow> string list \<Rightarrow> es_query" where
  "build_esQuery queryVector topK normalized phrase userID tags =
     \<lparr>knn_field = ''vector'',
      knn_query_vector = queryVector,
      knn_k = topK * 30,
      knn_num_candidates = topK * 30,
      must_match_text_content = normalized,
      filter_should = [Term_user_id userID, Term_is_public True, Terms_org_tag tags],
      filter_minimum_should_match = 1,
      bool_should = buildPhraseShould phrase,
      rescore_window_size = topK * 30,
      rescore_match_query = normalized,
      rescore_match_operator = ''and'',
      rescore_query_weight = 0.2,
      rescore_rescore_query_weight = 1.0,
      q_size = topK\<rparr>"

text \<open>The retry of step 6 overwrites \<open>must\<close> and \<open>rescore_query\<close> in the same map.\<close>

definition retryQuery :: "es_query \<Rightarrow> string \<Rightarrow> es_query" where
  "retryQuery esQuery phrase =
     esQuery\<lparr>must_match_text_content := phrase, rescore_match_query := phrase\<rparr>"

text \<open>Steps 7 and 8: the file names of the hits and the response DTOs.\<close>

definition unknown_file :: string where
  "unknown_file = string_of_runes [0x672A, 0x77E5, 0x6587, 0x4EF6]"

definition fileNameMap :: "FileUpload list \<Rightarrow> (string \<rightharpoonup> string)" where
  "fileNameMap fileInfos = map_of (rev (map (\<lambda>info. (fu_FileMD5 info, fu_FileName info)) fileInfos))"

definition to_dto :: "(string \<rightharpoonup> string) \<Rightarrow> EsDocument \<times> real \<Rightarrow> SearchResponseDTO" where
  "to_dto names hit =
     (let src = fst hit;
          fileName = (case names (es_FileMD5 src) of None \<Rightarrow> [] | Some n \<Rightarrow> n);
          fileName = (if fileName = [] then unknown_file else fileName)
      in \<lparr>dto_FileMD5 = es_FileMD5 src,
          dto_FileName = fileName,
          dto_ChunkID = es_ChunkID src,
          dto_TextContent = es_TextContent src,
          dto_Score = snd hit,
          dto_UserID = digits (es_UserID src),
          dto_OrgTag = es_OrgTag src,
          dto_IsPublic = es_IsPublic src\<rparr>)"

definition enrich :: "search_env \<Rightarrow> (EsDocument \<times> real) list \<Rightarrow> error + SearchResponseDTO list" where
  "enrich env hits =
     (case env_FindBatchByMD5s env (remdups (map (\<lambda>hit. es_FileMD5 (fst hit)) hits)) of
        None \<Rightarrow> Inl ErrFileInfos
      | Some fileInfos \<Rightarrow> Inr (map (to_dto (fileNameMap fileInfos)) hits))"

text \<open>
  \<open>HybridSearch\<close>.  The result is the list of the queries sent to the indexer, in order,
  and the value returned.  Encoding the query map as JSON does not fail for the vectors an
  embedding client returns, so that branch is left out; a retry whose reply cannot be used
  leaves the (empty) hits of the first reply in place.
\<close>

definition HybridSearch ::
  "search_env \<Rightarrow> string \<Rightarrow> int \<Rightarrow> User \<Rightarrow> es_query list \<times> (error + SearchResponseDTO list)" where
  "HybridSearch env query topK user =
     (let tags = userEffectiveTags env user;
          (normalized, phrase) = normalizeQuery (env_tables env) query
      in case env_CreateEmbedding env query of
           None \<Rightarrow> ([], Inl ErrCreateEmbedding)
         | Some queryVector \<Rightarrow>
             (let esQuery = build_esQuery queryVector topK normalized phrase (uID user) tags
              in case env_Search env esQuery of
                   EsTransportError \<Rightarrow> ([esQuery], Inl ErrEsSearch)
                 | EsErrorStatus \<Rightarrow> ([esQuery], Inl ErrEsStatus)
                 | EsUndecodable \<Rightarrow> ([esQuery], Inl ErrEsDecode)
                 | EsHits hits \<Rightarrow>
                     if length hits = 0 then
                       (if phrase \<noteq> [] \<and> phrase \<noteq> query then
                          (let retry = retryQuery esQuery phrase;
                               hits2 = (case env_Search env retry of
                                          EsHits h \<Rightarrow> h
                                        | _ \<Rightarrow> hits)
                           in if length hits2 = 0 then ([esQuery, retry], Inr [])
                              else ([esQuery, retry], enrich env hits2))
                        else ([esQuery], Inr []))
                     else ([esQuery], enrich env hits)))"

section \<open>Search request handler (\<open>SearchHandler.HybridSearch\<close>)\<close>

text \<open>
  \<open>strconv.Atoi\<close>: an optional sign followed by at least one decimal digit, within the
  range of a 64-bit \<open>int\<close>; anything else is an error (\<open>None\<close>).
\<close>

definition is_digit :: "char \<Rightarrow> bool" where
  "is_digit c = (48 \<le> (of_char c :: nat) \<and> (of_char c :: nat) \<le> 57)"

fun parse_digits :: "string \<Rightarrow> nat \<Rightarrow> nat option" where
  "parse_digits [] acc = Some acc"
| "parse_digits (c # cs) acc =
     (if is_digit c then parse_digits cs (acc * 10 + (of_char c - 48)) else None)"

definition Atoi :: "string \<Rightarrow> int option" where
  "Atoi s =
     (case s of
        [] \<Rightarrow> None
      | c # cs \<Rightarrow>
          (let neg = (c = CHR ''-'');
               ds = (if c = CHR ''-'' \<or> c = CHR ''+'' then cs else s)
           in if ds = [] then None
              else (case parse_digits ds 0 of
                      None \<Rightarrow> None
                    | Some n \<Rightarrow>
                        (let v = (if neg then - int n else int n)
                         in if v < - (2 ^ 63) \<or> 2 ^ 63 - 1 < v then None else Some v))))"

text \<open>
  The request as the handler reads it: the URL query parameters (\<open>c.Query\<close>,
  \<open>c.DefaultQuery\<close>) and the user that the authentication middleware stored in the context.
\<close>

record search_request =
  req_params :: "string \<rightharpoonup> string"
  req_user :: "User option"

definition Query :: "search_request \<Rightarrow> string \<Rightarrow> string" where
  "Query c key = (case req_params c key of None \<Rightarrow> [] | Some v \<Rightarrow> v)"

definition DefaultQuery :: "search_request \<Rightarrow> string \<Rightarrow> string \<Rightarrow> string" where
  "DefaultQuery c key defaultValue = (case req_params c key of None \<Rightarrow> defaultValue | Some v \<Rightarrow> v)"

text \<open>
  The response: the HTTP status, the results when the status is 200, and the arguments
  with which the search service was invoked, if it was.
\<close>

record search_response =
  resp_status :: int
  resp_data :: "SearchResponseDTO list"
  resp_invoked :: "(string \<times> int \<times> User) option"

definition StatusOK :: int where "StatusOK = 200"
definition StatusBadRequest :: int where "StatusBadRequest = 400"
definition StatusInternalServerError :: int where "StatusInternalServerError = 500"

definition SearchHandler_HybridSearch ::
  "(string \<Rightarrow> int \<Rightarrow> User \<Rightarrow> error + SearchResponseDTO list) \<Rightarrow> search_request \<Rightarrow> search_response" where
  "SearchHandler_HybridSearch searchService c =
     (let query = Query c ''query''
      in if query = []
         then \<lparr>resp_status = StatusBadRequest, resp_data = [], resp_invoked = None\<rparr>
         else
           (let topKStr = DefaultQuery c ''topK'' ''10'';
                topK = (case Atoi topKStr of
                          None \<Rightarrow> 10
                        | Some k \<Rightarrow> if k \<le> 0 then 10 else k)
            in case req_user c of
                 None \<Rightarrow> \<lparr>resp_status = StatusInternalServerError, resp_data = [],
                           resp_invoked = None\<rparr>
               | Some user \<Rightarrow>
                   (case searchService query topK user of
                      Inl err \<Rightarrow> \<lparr>resp_status = StatusInternalServerError, resp_data = [],
                                  resp_invoked = Some (query, topK, user)\<rparr>
                    | Inr results \<Rightarrow> \<lparr>resp_status = StatusOK, resp_data = results,
                                      resp_invoked = Some (query, topK, user)\<rparr>)))"

section \<open>Text splitter (pipeline \<open>splitText\<close>, \<open>simpleSplit\<close>)\<close>

text \<open>The Go slice expression \<open>runes[i:end]\<close> for \<open>0 \<le> i \<le> end \<le> len(runes)\<close>.\<close>

definition slice :: "'a list \<Rightarrow> int \<Rightarrow> int \<Rightarrow> 'a list" where
  "slice xs i e = take (nat (e - i)) (drop (nat i) xs)"

text \<open>
  The loop of \<open>simpleSplit\<close>: \<open>for i := 0; i < len(runes); i += chunkSize\<close>.  The
  source has no guard on \<open>chunkSize\<close>, so the loop may run forever (\<open>chunkSize = 0\<close>)
  or panic on the slice (\<open>chunkSize < 0\<close>); not returning is the value \<open>None\<close>.
\<close>

partial_function (option) simpleSplit_loop ::
  "rune list \<Rightarrow> int \<Rightarrow> int \<Rightarrow> string list \<Rightarrow> (error + string list) option" where
  "simpleSplit_loop runes chunkSize i chunks =
     (if i < int (length runes) then
        (let e = (if i + chunkSize > int (length runes) then int (length runes)
                  else i + chunkSize)
         in if i < 0 \<or> e < i then Some (Inl SliceBoundsOutOfRange)
            else simpleSplit_loop runes chunkSize (i + chunkSize) (chunks @ [string_of_runes (slice runes i e)]))
      else Some (Inr chunks))"

declare simpleSplit_loop.simps [code]

definition simpleSplit :: "string \<Rightarrow> int \<Rightarrow> (error + string list) option" where
  "simpleSplit text chunkSize =
     (let runes = runes_of text
      in if length runes = 0 then Some (Inr [])
         else simpleSplit_loop runes chunkSize 0 [])"

text \<open>
  The loop of \<open>splitText\<close>: \<open>for i := 0; i < len(runes); i += step\<close> with the
  \<open>break\<close> once a window reaches the end of the text.
\<close>

partial_function (option) splitText_loop ::
  "rune list \<Rightarrow> int \<Rightarrow> int \<Rightarrow> int \<Rightarrow> string list \<Rightarrow> (error + string list) option" where
  "splitText_loop runes chunkSize step i chunks =
     (if i < int (length runes) then
        (let e = (if i + chunkSize > int (length runes) then int (length runes)
                  else i + chunkSize)
         in if i < 0 \<or> e < i then Some (Inl SliceBoundsOutOfRange)
            else if e = int (length runes) then Some (Inr (chunks @ [string_of_runes (slice runes i e)]))
            else splitText_loop runes chunkSize step (i + step) (chunks @ [string_of_runes (slice runes i e)]))
      else Some (Inr chunks))"

declare splitText_loop.simps [code]

definition splitText :: "string \<Rightarrow> int \<Rightarrow> int \<Rightarrow> (error + string list) option" where
  "splitText text chunkSize chunkOverlap =
     (if chunkSize \<le> chunkOverlap then simpleSplit text chunkSize
      else (let runes = runes_of text
            in if length runes = 0 then Some (Inr [])
               else splitText_loop runes chunkSize (chunkSize - chunkOverlap) 0 []))"

section \<open>Work queue consumer (\<open>StartConsumer\<close>)\<close>

text \<open>\<open>tasks.FileProcessingTask\<close>.\<close>

record FileProcessingTask =
  task_FileMD5 :: string
  task_ObjectUrl :: string
  task_FileName :: string
  task_UserID :: nat
  task_OrgTag :: string
  task_IsPublic :: bool

text \<open>
  The counter store: the integer values and the time to live (in seconds) of the keys.
  Each command takes a flag saying whether the store fails on this call; a failed command
  changes nothing.  \<open>INCR\<close> treats a missing key as 0 and keeps the time to live of an
  existing key; \<open>EXPIRE\<close> sets it for an existing key; \<open>DEL\<close> removes the key.
\<close>

record redis_state =
  rd_values :: "string \<rightharpoonup> int"
  rd_ttl :: "string \<rightharpoonup> nat"

definition redis_Incr :: "bool \<Rightarrow> string \<Rightarrow> redis_state \<Rightarrow> (error + int) \<times> redis_state" where
  "redis_Incr fault key rd =
     (if fault then (Inl ErrRedis, rd)
      else (let v = (case rd_values rd key of None \<Rightarrow> 0 | Some n \<Rightarrow> n) + 1
            in (Inr v, rd\<lparr>rd_values := (rd_values rd)(key \<mapsto> v)\<rparr>)))"

definition redis_Expire :: "bool \<Rightarrow> string \<Rightarrow> nat \<Rightarrow> redis_state \<Rightarrow> redis_state" where
  "redis_Expire fault key seconds rd =
     (if fault \<or> rd_values rd key = None then rd
      else rd\<lparr>rd_ttl := (rd_ttl rd)(key \<mapsto> seconds)\<rparr>)"

definition redis_Del :: "bool \<Rightarrow> string \<Rightarrow> redis_state \<Rightarrow> redis_state" where
  "redis_Del fault key rd =
     (if fault then rd
      else rd\<lparr>rd_values := (rd_values rd)(key := None), rd_ttl := (rd_ttl rd)(key := None)\<rparr>)"

text \<open>
  A fetched message: its offset and the task its value unmarshals to (\<open>None\<close> when the
  JSON cannot be parsed).  The consumer's view of the world is the counter store and the
  offsets it has committed; the calls it makes are recorded in order.
\<close>

record kafka_message =
  msg_offset :: int
  msg_task :: "FileProcessingTask option"

datatype consumer_call =
    Call_Incr string
  | Call_Expire string nat
  | Call_Del string
  | Call_CommitMessages int

record consumer_state =
  cs_redis :: redis_state
  cs_committed :: "int list"
  cs_calls :: "consumer_call list"

text \<open>
  What the collaborators do during the handling of one message: the result of
  \<open>processor.Process\<close> (\<open>None\<close> is \<open>nil\<close>) and whether each store call fails.
\<close>

record consumer_env =
  ce_Process :: "FileProcessingTask \<Rightarrow> error option"
  ce_incr_fault :: bool
  ce_expire_fault :: bool
  ce_del_fault :: bool
  ce_commit_fault :: bool

definition attemptsKey :: "FileProcessingTask \<Rightarrow> string" where
  "attemptsKey task = ''kafka:attempts:'' @ task_FileMD5 task"

text \<open>\<open>24 * time.Hour\<close>, in seconds.\<close>

definition attempts_ttl :: nat where
  "attempts_ttl = 24 * 60 * 60"

definition CommitMessages :: "consumer_env \<Rightarrow> kafka_message \<Rightarrow> consumer_state \<Rightarrow> consumer_state" where
  "CommitMessages env m st =
     st\<lparr>cs_committed := (if ce_commit_fault env then cs_committed st
                           else cs_committed st @ [msg_offset m]),
        cs_calls := cs_calls st @ [Call_CommitMessages (msg_offset m)]\<rparr>"

text \<open>The body of the consumer loop for one fetched message.\<close>

definition handle_message :: "consumer_env \<Rightarrow> kafka_message \<Rightarrow> consumer_state \<Rightarrow> consumer_state" where
  "handle_message env m st =
     (case msg_task m of
        None \<Rightarrow> CommitMessages env m st
      | Some task \<Rightarrow>
          (case ce_Process env task of
             Some err \<Rightarrow>
               (let (res, rd) = redis_Incr (ce_incr_fault env) (attemptsKey task) (cs_redis st);
                    st = st\<lparr>cs_redis := rd, cs_calls := cs_calls st @ [Call_Incr (attemptsKey task)]\<rparr>
                in case res of
                     Inl incErr \<Rightarrow> st
                   | Inr attempts \<Rightarrow>
                       (let st = st\<lparr>cs_redis := redis_Expire (ce_expire_fault env) (attemptsKey task)
                                                   attempts_ttl (cs_redis st),
                                      cs_calls := cs_calls st
                                                   @ [Call_Expire (attemptsKey task) attempts_ttl]\<rparr>
                        in if attempts \<ge> 3 then CommitMessages env m st else st))
           | None \<Rightarrow>
               (let st = st\<lparr>cs_redis := redis_Del (ce_del_fault env) (attemptsKey task) (cs_redis st),
                              cs_calls := cs_calls st @ [Call_Del (attemptsKey task)]\<rparr>
                in CommitMessages env m st)))"

section \<open>The stores behind the upload, ingestion and document services\<close>

text \<open>\<open>model.ChunkInfo\<close> and \<open>model.DocumentVector\<close>.\<close>

record ChunkInfo =
  ci_ID :: nat
  ci_FileMD5 :: string
  ci_ChunkIndex :: int
  ci_ChunkMD5 :: string
  ci_StoragePath :: string

record DocumentVector =
  dv_VectorID :: nat
  dv_FileMD5 :: string
  dv_ChunkID :: int
  dv_TextContent :: string
  dv_ModelVersion :: string
  dv_UserID :: nat
  dv_OrgTag :: string
  dv_IsPublic :: bool

text \<open>
  The state of the collaborators: the three relational tables (rows in table order), the
  auto-increment counter of \<open>document_vectors\<close>, the progress bitmaps of the key-value
  store, the objects of the bucket, the documents of the index by document id, the tasks
  published to the queue, and the mutating calls made to the object store.
\<close>

datatype store_call =
    Store_Copy string string
  | Store_Compose string "string list"
  | Store_Remove string

record world =
  w_file_upload :: "FileUpload list"
  w_chunk_info :: "ChunkInfo list"
  w_document_vectors :: "DocumentVector list"
  w_vector_seq :: nat
  w_bitmaps :: "string \<rightharpoonup> 8 word list"
  w_objects :: "string \<rightharpoonup> string"
  w_es_index :: "string \<rightharpoonup> EsDocument"
  w_kafka :: "FileProcessingTask list"
  w_store_calls :: "store_call list"

subsection \<open>Upload repository\<close>

text \<open>
  Every repository function takes a flag saying whether the store fails on this call;
  a failed call changes nothing.  \<open>GetFileUploadRecord\<close> is \<open>Where(...).First\<close>.
\<close>

definition GetFileUploadRecord :: "bool \<Rightarrow> string \<Rightarrow> nat \<Rightarrow> world \<Rightarrow> error + FileUpload" where
  "GetFileUploadRecord fault fileMD5 userID w =
     (if fault then Inl ErrRecordLookup
      else (case find (\<lambda>r. fu_FileMD5 r = fileMD5 \<and> fu_UserID r = userID) (w_file_upload w) of
              None \<Rightarrow> Inl ErrRecordNotFound
            | Some record \<Rightarrow> Inr record))"

definition UpdateFileUploadStatus :: "bool \<Rightarrow> nat \<Rightarrow> int \<Rightarrow> world \<Rightarrow> error + world" where
  "UpdateFileUploadStatus fault recordID status w =
     (if fault then Inl ErrUpdateStatus
      else Inr (w\<lparr>w_file_upload :=
                    map (\<lambda>r. if fu_ID r = recordID then r\<lparr>fu_Status := status\<rparr> else r)
                        (w_file_upload w)\<rparr>))"

definition getRedisUploadKey :: "string \<Rightarrow> nat \<Rightarrow> string" where
  "getRedisUploadKey fileMD5 userID = ''upload:'' @ digits userID @ '':'' @ fileMD5"

text \<open>
  \<open>GetUploadedChunksFromRedis\<close>: the indexes below \<open>totalChunks\<close> whose bit is set, bit
  \<open>i\<close> being bit \<open>7 - i % 8\<close> of byte \<open>i / 8\<close>.
\<close>

definition chunk_bit_set :: "8 word list \<Rightarrow> nat \<Rightarrow> bool" where
  "chunk_bit_set bitmap i =
     (let byteIndex = i div 8; bitIndex = i mod 8
      in byteIndex < length bitmap
         \<and> and (drop_bit (7 - bitIndex) (bitmap ! byteIndex)) 1 = 1)"

definition GetUploadedChunksFromRedis ::
  "bool \<Rightarrow> string \<Rightarrow> nat \<Rightarrow> int \<Rightarrow> world \<Rightarrow> error + int list" where
  "GetUploadedChunksFromRedis fault fileMD5 userID totalChunks w =
     (if totalChunks = 0 then Inr []
      else if fault then Inl ErrRedis
      else (case w_bitmaps w (getRedisUploadKey fileMD5 userID) of
              None \<Rightarrow> Inr []
            | Some bitmap \<Rightarrow>
                Inr (map int (filter (chunk_bit_set bitmap) [0..<nat totalChunks]))))"

text \<open>
  \<open>DeleteFileUploadRecord\<close>: three deletions, each attempted whatever the others did; the
  errors are joined.
\<close>

definition DeleteFileUploadRecord ::
  "bool \<Rightarrow> bool \<Rightarrow> bool \<Rightarrow> string \<Rightarrow> nat \<Rightarrow> world \<Rightarrow> world \<times> (error + unit)" where
  "DeleteFileUploadRecord fault_chunks fault_vectors fault_upload fileMD5 userID w =
     (let w = (if fault_chunks then w
               else w\<lparr>w_chunk_info := filter (\<lambda>c. ci_FileMD5 c \<noteq> fileMD5) (w_chunk_info w)\<rparr>);
          w = (if fault_vectors then w
               else w\<lparr>w_document_vectors :=
                          filter (\<lambda>v. dv_FileMD5 v \<noteq> fileMD5) (w_document_vectors w)\<rparr>);
          w = (if fault_upload then w
               else w\<lparr>w_file_upload :=
                          filter (\<lambda>r. \<not> (fu_FileMD5 r = fileMD5 \<and> fu_UserID r = userID))
                                 (w_file_upload w)\<rparr>)
      in (w, if fault_chunks \<or> fault_vectors \<or> fault_upload then Inl ErrDeletePartial else Inr ()))"

subsection \<open>Object store\<close>

text \<open>
  A server-side copy needs its source; a compose needs at least one source and all of
  them, and writes their contents in the order given.  Removing an absent object is not
  an error.
\<close>

definition CopyObject :: "bool \<Rightarrow> string \<Rightarrow> string \<Rightarrow> world \<Rightarrow> error + world" where
  "CopyObject fault dst src w =
     (case (if fault then None else w_objects w src) of
        None \<Rightarrow> Inl ErrCopyObject
      | Some content \<Rightarrow>
          Inr (w\<lparr>w_objects := (w_objects w)(dst \<mapsto> content),
                 w_store_calls := w_store_calls w @ [Store_Copy dst src]\<rparr>))"

definition ComposeObject :: "bool \<Rightarrow> string \<Rightarrow> string list \<Rightarrow> world \<Rightarrow> error + world" where
  "ComposeObject fault dst srcs w =
     (if fault \<or> srcs = [] \<or> list_ex (\<lambda>s. w_objects w s = None) srcs then Inl ErrComposeObject
      else Inr (w\<lparr>w_objects := (w_objects w)(dst \<mapsto> concat (map (\<lambda>s. the (w_objects w s)) srcs)),
                   w_store_calls := w_store_calls w @ [Store_Compose dst srcs]\<rparr>))"

definition RemoveObject :: "bool \<Rightarrow> string \<Rightarrow> world \<Rightarrow> world" where
  "RemoveObject fault name w =
     (if fault then w
      else w\<lparr>w_objects := (w_objects w)(name := None),
             w_store_calls := w_store_calls w @ [Store_Remove name]\<rparr>)"

section \<open>Upload service (\<open>MergeChunks\<close>)\<close>

definition DefaultChunkSize :: int where
  "DefaultChunkSize = 5 * 1024 * 1024"

text \<open>
  \<open>calculateTotalChunks\<close>: the ceiling of \<open>totalSize / DefaultChunkSize\<close> (the source
  computes it in \<open>float64\<close>, which is exact for the sizes of real files).
\<close>

definition calculateTotalChunks :: "int \<Rightarrow> int" where
  "calculateTotalChunks totalSize =
     (if totalSize = 0 then 0 else - ((- totalSize) div DefaultChunkSize))"

definition chunkObject :: "string \<Rightarrow> int \<Rightarrow> string" where
  "chunkObject fileMD5 i = ''chunks/'' @ fileMD5 @ ''/'' @ Itoa i"

definition mergedObject :: "string \<Rightarrow> string" where
  "mergedObject fileName = ''merged/'' @ fileName"

text \<open>
  What the collaborators do during one \<open>MergeChunks\<close>: whether each call fails, and the
  URL that \<open>GetPresignedURL\<close> returns (its error is discarded).
\<close>

record merge_env =
  me_lookup_fault :: bool
  me_redis_fault :: bool
  me_object_store_fault :: bool
  me_update_fault :: bool
  me_presigned_url :: string
  me_publish_fault :: bool

definition ProduceFileTask :: "bool \<Rightarrow> FileProcessingTask \<Rightarrow> world \<Rightarrow> world" where
  "ProduceFileTask fault task w = (if fault then w else w\<lparr>w_kafka := w_kafka w @ [task]\<rparr>)"

text \<open>
  \<open>MergeChunks\<close>, up to its return.  The clean-up of the progress bitmap and of the part
  objects runs in a goroutine of its own after the return and is not part of the result.
\<close>

definition MergeChunks :: "merge_env \<Rightarrow> string \<Rightarrow> string \<Rightarrow> nat \<Rightarrow> world \<Rightarrow> world \<times> (error + string)" where
  "MergeChunks env fileMD5 fileName userID w =
     (case GetFileUploadRecord (me_lookup_fault env) fileMD5 userID w of
        Inl err \<Rightarrow> (w, Inl err)
      | Inr record \<Rightarrow>
          (let totalChunks = calculateTotalChunks (fu_TotalSize record)
           in case GetUploadedChunksFromRedis (me_redis_fault env) fileMD5 userID totalChunks w of
                Inl err \<Rightarrow> (w, Inl ErrRedis)
              | Inr uploadedIndexes \<Rightarrow>
                  if int (length uploadedIndexes) < totalChunks
                  then (w, Inl (ErrIncomplete totalChunks (int (length uploadedIndexes))))
                  else
                    (let destObjectName = mergedObject fileName;
                         merged =
                           (if totalChunks = 1
                            then CopyObject (me_object_store_fault env) destObjectName
                                   (chunkObject fileMD5 0) w
                            else ComposeObject (me_object_store_fault env) destObjectName
                                   (map (\<lambda>i. chunkObject fileMD5 (int i)) [0..<nat totalChunks]) w)
                     in case merged of
                          Inl err \<Rightarrow> (w, Inl err)
                        | Inr w1 \<Rightarrow>
                            (case UpdateFileUploadStatus (me_update_fault env) (fu_ID record) 1 w1 of
                               Inl err \<Rightarrow> (w1, Inl err)
                             | Inr w2 \<Rightarrow>
                                 (let objectURL = me_presigned_url env;
                                      task = \<lparr>task_FileMD5 = fileMD5,
                                              task_ObjectUrl = objectURL,
                                              task_FileName = fileName,
                                              task_UserID = userID,
                                              task_OrgTag = fu_OrgTag record,
                                              task_IsPublic = fu_IsPublic record\<rparr>
                                  in (ProduceFileTask (me_publish_fault env) task w2,
                                      Inr objectURL))))))"

section \<open>Document service (\<open>DeleteDocument\<close>)\<close>

text \<open>Whether each call of one \<open>DeleteDocument\<close> fails.\<close>

record delete_env =
  de_lookup_fault :: bool
  de_remove_fault :: bool
  de_chunks_fault :: bool
  de_vectors_fault :: bool
  de_upload_fault :: bool

text \<open>
  \<open>DeleteDocument\<close>: the record is looked up under the caller's own id; the error of
  \<open>RemoveObject\<close> is ignored; the indexer is not called.
\<close>

definition DeleteDocument :: "delete_env \<Rightarrow> string \<Rightarrow> User \<Rightarrow> world \<Rightarrow> world \<times> (error + unit)" where
  "DeleteDocument env fileMD5 user w =
     (case GetFileUploadRecord (de_lookup_fault env) fileMD5 (uID user) w of
        Inl err \<Rightarrow> (w, Inl ErrNotFoundOrNotOwner)
      | Inr record \<Rightarrow>
          if fu_UserID record \<noteq> uID user \<and> uRole user \<noteq> ''ADMIN''
          then (w, Inl ErrNoPermission)
          else
            (let objectName = ''merged/'' @ fu_FileName record;
                 w = RemoveObject (de_remove_fault env) objectName w
             in DeleteFileUploadRecord (de_chunks_fault env) (de_vectors_fault env)
                  (de_upload_fault env) fileMD5 (fu_UserID record) w))"

section \<open>Ingestion pipeline (\<open>Processor.Process\<close>)\<close>

subsection \<open>Document vector repository and index client\<close>

text \<open>\<open>DeleteByFileMD5\<close>, \<open>BatchCreate\<close> (the rows get the next ids of the sequence) and
  \<open>FindByFileMD5\<close>.\<close>

definition DeleteByFileMD5 :: "bool \<Rightarrow> string \<Rightarrow> world \<Rightarrow> world \<times> (error + unit)" where
  "DeleteByFileMD5 fault fileMD5 w =
     (if fault then (w, Inl ErrDeletePartial)
      else (w\<lparr>w_document_vectors := filter (\<lambda>v. dv_FileMD5 v \<noteq> fileMD5) (w_document_vectors w)\<rparr>,
            Inr ()))"

definition BatchCreate :: "bool \<Rightarrow> DocumentVector list \<Rightarrow> world \<Rightarrow> error + world" where
  "BatchCreate fault vectors w =
     (if length vectors = 0 then Inr w
      else if fault then Inl ErrBatchCreate
      else Inr (w\<lparr>w_document_vectors :=
                     w_document_vectors w
                       @ map (\<lambda>(i, v). v\<lparr>dv_VectorID := w_vector_seq w + i + 1\<rparr>) (enumerate 0 vectors),
                   w_vector_seq := w_vector_seq w + length vectors\<rparr>))"

definition FindByFileMD5 :: "bool \<Rightarrow> string \<Rightarrow> world \<Rightarrow> error + DocumentVector list" where
  "FindByFileMD5 fault fileMD5 w =
     (if fault then Inl ErrFindVectors
      else Inr (filter (\<lambda>v. dv_FileMD5 v = fileMD5) (w_document_vectors w)))"

text \<open>\<open>es.IndexDocument\<close>: the document is stored under its \<open>VectorID\<close> as document id,
  replacing a document of that id.\<close>

definition IndexDocument :: "bool \<Rightarrow> EsDocument \<Rightarrow> world \<Rightarrow> error + world" where
  "IndexDocument fault doc w =
     (if fault then Inl (ErrIndexChunk (es_ChunkID doc))
      else Inr (w\<lparr>w_es_index := (w_es_index w)(es_VectorID doc \<mapsto> doc)\<rparr>))"

subsection \<open>\<open>Process\<close>\<close>

text \<open>
  What the collaborators do during one \<open>Process\<close>: whether each store call fails, the
  text the extractor returns for the bytes and the file name, the embedding client, and
  the configured model name.
\<close>

record process_env =
  pe_download_fault :: bool
  pe_ExtractText :: "string \<Rightarrow> string \<Rightarrow> error + string"
  pe_delete_fault :: bool
  pe_batch_fault :: bool
  pe_find_fault :: bool
  pe_CreateEmbedding :: "string \<Rightarrow> vector option"
  pe_index_fault :: "string \<Rightarrow> bool"
  pe_Model :: string

definition download :: "process_env \<Rightarrow> string \<Rightarrow> world \<Rightarrow> error + string" where
  "download env objectName w =
     (if pe_download_fault env then Inl ErrDownload
      else (case w_objects w objectName of
              None \<Rightarrow> Inl ErrReadObject
            | Some content \<Rightarrow> Inr content))"

text \<open>\<open>fmt.Sprintf("%s_%d", FileMD5, ChunkID)\<close>.\<close>

definition vector_id :: "string \<Rightarrow> int \<Rightarrow> string" where
  "vector_id fileMD5 chunkID = fileMD5 @ ''_'' @ Itoa chunkID"

definition to_EsDocument :: "process_env \<Rightarrow> DocumentVector \<Rightarrow> vector \<Rightarrow> EsDocument" where
  "to_EsDocument env docVector vector =
     \<lparr>es_VectorID = vector_id (dv_FileMD5 docVector) (dv_ChunkID docVector),
      es_FileMD5 = dv_FileMD5 docVector,
      es_ChunkID = dv_ChunkID docVector,
      es_TextContent = dv_TextContent docVector,
      es_Vector = vector,
      es_ModelVersion = pe_Model env,
      es_UserID = dv_UserID docVector,
      es_OrgTag = dv_OrgTag docVector,
      es_IsPublic = dv_IsPublic docVector\<rparr>"

text \<open>Step 4: embed and index the saved rows in order, stopping at the first error.\<close>

fun embed_and_index :: "process_env \<Rightarrow> DocumentVector list \<Rightarrow> world \<Rightarrow> world \<times> (error + unit)" where
  "embed_and_index env [] w = (w, Inr ())"
| "embed_and_index env (docVector # rest) w =
     (case pe_CreateEmbedding env (dv_TextContent docVector) of
        None \<Rightarrow> (w, Inl (ErrEmbedChunk (dv_ChunkID docVector)))
      | Some vector \<Rightarrow>
          (let esDoc = to_EsDocument env docVector vector
           in case IndexDocument (pe_index_fault env (es_VectorID esDoc)) esDoc w of
                Inl err \<Rightarrow> (w, Inl err)
              | Inr w' \<Rightarrow> embed_and_index env rest w'))"

text \<open>The rows built from the chunks: chunk ids \<open>0..N-1\<close>, the id column still unset.\<close>

definition new_vectors :: "FileProcessingTask \<Rightarrow> string list \<Rightarrow> DocumentVector list" where
  "new_vectors task chunks =
     map (\<lambda>(i, chunk).
            \<lparr>dv_VectorID = 0,
             dv_FileMD5 = task_FileMD5 task,
             dv_ChunkID = int i,
             dv_TextContent = chunk,
             dv_ModelVersion = [],
             dv_UserID = task_UserID task,
             dv_OrgTag = task_OrgTag task,
             dv_IsPublic = task_IsPublic task\<rparr>)
         (enumerate 0 chunks)"

text \<open>
  \<open>Process\<close>.  \<open>None\<close> stands for a run that does not return (the splitter is the only
  loop that is not bounded by construction); the error of \<open>DeleteByFileMD5\<close> is only
  logged.
\<close>

definition Process :: "process_env \<Rightarrow> FileProcessingTask \<Rightarrow> world \<Rightarrow> (world \<times> (error + unit)) option" where
  "Process env task w =
     (case download env (''merged/'' @ task_FileName task) w of
        Inl err \<Rightarrow> Some (w, Inl err)
      | Inr content \<Rightarrow>
          if length content = 0 then Some (w, Inl ErrEmptyFile)
          else
            (case pe_ExtractText env content (task_FileName task) of
               Inl err \<Rightarrow> Some (w, Inl ErrTika)
             | Inr textContent \<Rightarrow>
                 if textContent = [] then Some (w, Inl ErrEmptyText)
                 else
                   (case splitText textContent 1000 100 of
                      None \<Rightarrow> None
                    | Some (Inl panic) \<Rightarrow> Some (w, Inl panic)
                    | Some (Inr chunks) \<Rightarrow>
                        if length chunks = 0 then Some (w, Inl ErrNoChunks)
                        else
                          (let w1 = fst (DeleteByFileMD5 (pe_delete_fault env) (task_FileMD5 task) w);
                               dbVectors = new_vectors task chunks
                           in case BatchCreate (pe_batch_fault env) dbVectors w1 of
                                Inl err \<Rightarrow> Some (w1, Inl ErrBatchCreate)
                              | Inr w2 \<Rightarrow>
                                  (case FindByFileMD5 (pe_find_fault env) (task_FileMD5 task) w2 of
                                     Inl err \<Rightarrow> Some (w2, Inl ErrFindVectors)
                                   | Inr savedVectors \<Rightarrow>
                                       Some (embed_and_index env savedVectors w2))))))"

text \<open>The \<open>document_vectors\<close> rows of a file, as \<open>FindByFileMD5\<close> reads them.\<close>

definition rows_for :: "string \<Rightarrow> world \<Rightarrow> DocumentVector list" where
  "rows_for fileMD5 w = filter (\<lambda>v. dv_FileMD5 v = fileMD5) (w_document_vectors w)"

section \<open>Example data\<close>

text \<open>Concrete stores and collaborators, used to instantiate the theorems below.\<close>

abbreviation (input) ex_upload :: FileUpload where
  "ex_upload \<equiv> \<lparr>fu_ID = 1, fu_FileMD5 = ''m'', fu_FileName = ''f.txt'', fu_TotalSize = 6291456,
                 fu_Status = 0, fu_UserID = 7, fu_OrgTag = ''t'', fu_IsPublic = False\<rparr>"

abbreviation (input) ex_upload_world :: world where
  "ex_upload_world \<equiv>
     \<lparr>w_file_upload = [ex_upload], w_chunk_info = [], w_document_vectors = [], w_vector_seq = 0,
      w_bitmaps = [''upload:7:m'' \<mapsto> [0xC0]],
      w_objects = [''chunks/m/0'' \<mapsto> ''ab'', ''chunks/m/1'' \<mapsto> ''cd''],
      w_es_index = Map.empty, w_kafka = [], w_store_calls = []\<rparr>"

abbreviation (input) ex_merge_env :: merge_env where
  "ex_merge_env \<equiv>
     \<lparr>me_lookup_fault = False, me_redis_fault = False, me_object_store_fault = False,
      me_update_fault = False, me_presigned_url = ''url'', me_publish_fault = True\<rparr>"


abbreviation (input) ex_doc :: EsDocument where
  "ex_doc \<equiv> \<lparr>es_VectorID = ''m_0'', es_FileMD5 = ''m'', es_ChunkID = 0, es_TextContent = ''abcd'',
              es_Vector = [1], es_ModelVersion = ''v1'', es_UserID = 7, es_OrgTag = ''t'',
              es_IsPublic = False\<rparr>"

abbreviation (input) ex_document_world :: world where
  "ex_document_world \<equiv>
     \<lparr>w_file_upload = [ex_upload\<lparr>fu_Status := 1\<rparr>],
      w_chunk_info = [\<lparr>ci_ID = 1, ci_FileMD5 = ''m'', ci_ChunkIndex = 0, ci_ChunkMD5 = '''',
                       ci_StoragePath = ''chunks/m/0''\<rparr>],
      w_document_vectors = [\<lparr>dv_VectorID = 1, dv_FileMD5 = ''m'', dv_ChunkID = 0,
                             dv_TextContent = ''abcd'', dv_ModelVersion = '''', dv_UserID = 7,
                             dv_OrgTag = ''t'', dv_IsPublic = False\<rparr>],
      w_vector_seq = 1,
      w_bitmaps = Map.empty,
      w_objects = [''merged/f.txt'' \<mapsto> ''abcd''],
      w_es_index = [''m_0'' \<mapsto> ex_doc],
      w_kafka = [], w_store_calls = []\<rparr>"

abbreviation (input) ex_delete_env :: delete_env where
  "ex_delete_env \<equiv>
     \<lparr>de_lookup_fault = False, de_remove_fault = False, de_chunks_fault = False,
      de_vectors_fault = False, de_upload_fault = False\<rparr>"

abbreviation (input) ex_owner :: User where
  "ex_owner \<equiv> \<lparr>uID = 7, uUsername = ''owner'', uRole = ''USER'', uOrgTags = ''t'', uPrimaryOrg = ''t''\<rparr>"

abbreviation (input) ex_admin :: User where
  "ex_admin \<equiv> \<lparr>uID = 1, uUsername = ''root'', uRole = ''ADMIN'', uOrgTags = ''t'', uPrimaryOrg = ''t''\<rparr>"

abbreviation (input) ex_stranger :: User where
  "ex_stranger \<equiv> \<lparr>uID = 9, uUsername = ''other'', uRole = ''USER'', uOrgTags = ''t'', uPrimaryOrg = ''t''\<rparr>"

abbreviation (input) ex_process_env :: process_env where
  "ex_process_env \<equiv>
     \<lparr>pe_download_fault = False, pe_ExtractText = (\<lambda>content fileName. Inr ''hi''),
      pe_delete_fault = False, pe_batch_fault = False, pe_find_fault = False,
      pe_CreateEmbedding = (\<lambda>t. Some [1]), pe_index_fault = (\<lambda>vid. False), pe_Model = ''v1''\<rparr>"

abbreviation (input) ex_task :: FileProcessingTask where
  "ex_task \<equiv> \<lparr>task_FileMD5 = ''m'', task_ObjectUrl = ''url'', task_FileName = ''f.txt'',
               task_UserID = 7, task_OrgTag = ''t'', task_IsPublic = False\<rparr>"

abbreviation (input) ex_hi_doc :: EsDocument where
  "ex_hi_doc \<equiv> \<lparr>es_VectorID = ''m_0'', es_FileMD5 = ''m'', es_ChunkID = 0, es_TextContent = ''hi'',
                 es_Vector = [1], es_ModelVersion = ''v1'', es_UserID = 7, es_OrgTag = ''t'',
                 es_IsPublic = False\<rparr>"

abbreviation (input) ex_hi_row :: "nat \<Rightarrow> DocumentVector" where
  "ex_hi_row n \<equiv> \<lparr>dv_VectorID = n, dv_FileMD5 = ''m'', dv_ChunkID = 0, dv_TextContent = ''hi'',
                   dv_ModelVersion = [], dv_UserID = 7, dv_OrgTag = ''t'', dv_IsPublic = False\<rparr>"

abbreviation (input) ex_ingest_world :: "DocumentVector list \<Rightarrow> nat \<Rightarrow> (string \<rightharpoonup> EsDocument) \<Rightarrow> world" where
  "ex_ingest_world rows seq index \<equiv>
     \<lparr>w_file_upload = [], w_chunk_info = [], w_document_vectors = rows, w_vector_seq = seq,
      w_bitmaps = Map.empty, w_objects = [''merged/f.txt'' \<mapsto> ''abcd''],
      w_es_index = index, w_kafka = [], w_store_calls = []\<rparr>"

section \<open>Verification\<close>

section \<open>Evaluating characters\<close>

lemmas char_eval = char_of_def bit_Suc_0_iff

lemma digits_small: "n < 10 \<Longrightarrow> digits n = [char_of (48 + n)]"
  by (simp add: digits.simps)

section \<open>The effective tag set is the closure of the declared tags\<close>

lemma parentMap_rel:
  assumes "distinct (map TagID allTags)"
  shows "parentMap allTags c = Some (Some p) \<longleftrightarrow> (c, p) \<in> tag_parent_rel allTags"
proof -
  let ?xs = "rev (map (\<lambda>tag. (TagID tag, ParentTag tag)) allTags)"
  have "map fst ?xs = rev (map TagID allTags)" by (simp add: rev_map comp_def)
  then have "distinct (map fst ?xs)" using assms by simp
  then have "map_of ?xs c = Some (Some p) \<longleftrightarrow> (c, Some p) \<in> set ?xs"
    by (rule map_of_eq_Some_iff)
  then show ?thesis by (auto simp: parentMap_def tag_parent_rel_def)
qed

lemma enqueue_fold:
  assumes "set q = set e" "distinct e"
  shows "\<exists>e' q'. fold (\<lambda>tagID (effectiveTags, queue).
             if tagID \<notin> set effectiveTags
             then (effectiveTags @ [tagID], queue @ [tagID])
             else (effectiveTags, queue)) ts (e, q) = (e', q')
          \<and> set q' = set e' \<and> distinct e' \<and> set e' = set e \<union> set ts"
  using assms
proof (induction ts arbitrary: e q)
  case Nil
  then show ?case by simp
next
  case (Cons t ts)
  show ?case
  proof (cases "t \<in> set e")
    case True
    with Cons.IH[OF Cons.prems] show ?thesis by auto
  next
    case False
    have "set (q @ [t]) = set (e @ [t])" "distinct (e @ [t])"
      using Cons.prems False by auto
    from Cons.IH[OF this] False show ?thesis by auto
  qed
qed

lemma enqueue_initial_props:
  "\<exists>e q. enqueue_initial ts = (e, q) \<and> set q = set e \<and> distinct e \<and> set e = set ts"
  using enqueue_fold[of "[]" "[]" ts] by (simp add: enqueue_initial_def)

lemma rtrancl_Image_absorb:
  assumes "p \<in> R\<^sup>* `` A"
  shows "R\<^sup>* `` (A \<union> {p}) = R\<^sup>* `` A"
  using assms by (auto intro: rtrancl_trans)

lemma walk_parents_closure:
  assumes "\<forall>c p. parentMap allTags c = Some (Some p) \<longleftrightarrow> (c, p) \<in> R"
    and "set queue \<subseteq> set eff"
    and "\<forall>c \<in> set eff - set queue. \<forall>p. (c, p) \<in> R \<longrightarrow> p \<in> set eff"
    and "distinct eff"
  shows "set (walk_parents allTags queue eff) = R\<^sup>* `` set eff
         \<and> distinct (walk_parents allTags queue eff)"
  using assms
proof (induction allTags queue eff rule: walk_parents.induct)
  case (1 allTags queue eff)
  note fn = "1.prems"(1)
  show ?case
  proof (cases queue)
    case Nil
    then have "R `` set eff \<subseteq> set eff" using "1.prems"(3) by auto
    then have "R\<^sup>* `` set eff = set eff" by (rule Image_closed_trancl)
    with Nil "1.prems"(4) show ?thesis by simp
  next
    case (Cons cur rest)
    show ?thesis
    proof (cases "\<exists>p. parentMap allTags cur = Some (Some p) \<and> p \<notin> set eff")
      case True
      then obtain p where p: "parentMap allTags cur = Some (Some p)" "p \<notin> set eff" by blast
      have step: "walk_parents allTags queue eff
                  = walk_parents allTags (rest @ [p]) (eff @ [p])"
        using Cons p by simp
      have cur: "cur \<in> set eff" using Cons "1.prems"(2) by auto
      have pR: "(cur, p) \<in> R" using p(1) fn by simp
      have a: "set (rest @ [p]) \<subseteq> set (eff @ [p])" using Cons "1.prems"(2) by auto
      have b: "\<forall>c \<in> set (eff @ [p]) - set (rest @ [p]). \<forall>p'. (c, p') \<in> R \<longrightarrow> p' \<in> set (eff @ [p])"
      proof (intro ballI allI impI)
        fix c p' assume c: "c \<in> set (eff @ [p]) - set (rest @ [p])" and r: "(c, p') \<in> R"
        show "p' \<in> set (eff @ [p])"
        proof (cases "c = cur")
          case True
          with r fn have "parentMap allTags cur = Some (Some p')" by simp
          with p(1) show ?thesis by simp
        next
          case False
          with c Cons have "c \<in> set eff - set queue" by auto
          with "1.prems"(3) r show ?thesis by auto
        qed
      qed
      have d: "distinct (eff @ [p])" using "1.prems"(4) p(2) by simp
      have "p \<in> R\<^sup>* `` set eff" using cur pR by auto
      then have "R\<^sup>* `` set (eff @ [p]) = R\<^sup>* `` set eff"
        using rtrancl_Image_absorb[of p R "set eff"] by simp
      with "1.IH"(3)[OF Cons p(1) refl p(2) fn a b d] step show ?thesis by simp
    next
      case False
      have b: "\<forall>c \<in> set eff - set rest. \<forall>p'. (c, p') \<in> R \<longrightarrow> p' \<in> set eff"
      proof (intro ballI allI impI)
        fix c p' assume c: "c \<in> set eff - set rest" and r: "(c, p') \<in> R"
        show "p' \<in> set eff"
        proof (cases "c = cur")
          case True
          with r fn have "parentMap allTags cur = Some (Some p')" by simp
          with False show ?thesis by auto
        next
          case False
          with c Cons have "c \<in> set eff - set queue" by auto
          with "1.prems"(3) r show ?thesis by auto
        qed
      qed
      have a: "set rest \<subseteq> set eff" using Cons "1.prems"(2) by auto
      show ?thesis
      proof (cases "parentMap allTags cur")
        case None
        then have "walk_parents allTags queue eff = walk_parents allTags rest eff"
          using Cons by simp
        with "1.IH"(1)[OF Cons None fn a b "1.prems"(4)] show ?thesis by simp
      next
        case (Some x)
        show ?thesis
        proof (cases x)
          case None
          then have "walk_parents allTags queue eff = walk_parents allTags rest eff"
            using Cons Some by simp
          with "1.IH"(2)[OF Cons Some None fn a b "1.prems"(4)] show ?thesis by simp
        next
          case (Some p)
          with False \<open>parentMap allTags cur = Some x\<close> have pin: "\<not> p \<notin> set eff" by auto
          then have "walk_parents allTags queue eff = walk_parents allTags rest eff"
            using Cons Some \<open>parentMap allTags cur = Some x\<close> by simp
          with "1.IH"(4)[OF Cons \<open>parentMap allTags cur = Some x\<close> Some pin fn a b "1.prems"(4)]
          show ?thesis by simp
        qed
      qed
    qed
  qed
qed

lemma closure_of_declared_empty: "uOrgTags user = [] \<Longrightarrow> closure_of_declared allTags user = {}"
  by (simp add: closure_of_declared_def declared_tags_def)

lemma GetUserEffectiveOrgTags_set:
  assumes "distinct (map TagID allTags)"
  shows "\<exists>r. GetUserEffectiveOrgTags (Inr allTags) user = Inr r
           \<and> set r = closure_of_declared allTags user \<and> distinct r"
proof (cases "uOrgTags user = []")
  case True
  then show ?thesis
    by (simp add: GetUserEffectiveOrgTags_def closure_of_declared_empty)
next
  case False
  let ?R = "tag_parent_rel allTags"
  obtain e q where eq: "enqueue_initial (Split_comma (uOrgTags user)) = (e, q)"
    "set q = set e" "distinct e" "set e = set (Split_comma (uOrgTags user))"
    using enqueue_initial_props by blast
  let ?r = "walk_parents allTags q e"
  have run: "GetUserEffectiveOrgTags (Inr allTags) user = Inr ?r"
    using False eq(1) by (simp add: GetUserEffectiveOrgTags_def)
  have fn: "\<forall>c p. parentMap allTags c = Some (Some p) \<longleftrightarrow> (c, p) \<in> ?R"
    using parentMap_rel[OF assms] by blast
  have "set q \<subseteq> set e" "\<forall>c \<in> set e - set q. \<forall>p. (c, p) \<in> ?R \<longrightarrow> p \<in> set e"
    using eq(2) by auto
  from walk_parents_closure[OF fn this eq(3)]
  have r: "set ?r = ?R\<^sup>* `` set e" "distinct ?r" by auto
  have cl: "set ?r = closure_of_declared allTags user"
    using r(1) eq(4) False by (simp add: closure_of_declared_def declared_tags_def)
  with run r(2) show ?thesis by blast
qed

text \<open>
  Claim C2.  When the tag table is read successfully (tag ids are the table's primary key,
  hence distinct), \<open>GetUserEffectiveOrgTags\<close> returns a list whose elements are exactly the
  reflexive-transitive closure of the user's declared tags under the parent relation, and
  no tag occurs twice; this holds for every order in which the keys of the result map are
  enumerated.
\<close>

theorem GetUserEffectiveOrgTags_closure:
  assumes "distinct (map TagID allTags)"
  shows "\<exists>r. GetUserEffectiveOrgTags (Inr allTags) user = Inr r
           \<and> (\<forall>xs. mset xs = mset r \<longrightarrow>
                  set xs = closure_of_declared allTags user \<and> distinct xs)"
proof -
  from GetUserEffectiveOrgTags_set[OF assms, of user] obtain r where
    r: "GetUserEffectiveOrgTags (Inr allTags) user = Inr r"
       "set r = closure_of_declared allTags user" "distinct r"
    by blast
  have "\<forall>xs. mset xs = mset r \<longrightarrow> set xs = closure_of_declared allTags user \<and> distinct xs"
  proof (intro allI impI)
    fix xs assume m: "mset xs = mset r"
    then have "set xs = set r" by (rule mset_eq_setD)
    moreover have "distinct xs" using m r(3) by (metis mset_eq_imp_distinct_iff)
    ultimately show "set xs = closure_of_declared allTags user \<and> distinct xs" using r(2) by simp
  qed
  with r(1) show ?thesis by blast
qed

theorem GetUserEffectiveOrgTags_closure_witness:
  "distinct (map TagID
      [\<lparr>TagID = ''c'', TagName = ''child'', ParentTag = Some ''p''\<rparr>,
       \<lparr>TagID = ''p'', TagName = ''parent'', ParentTag = None\<rparr>,
       \<lparr>TagID = ''x'', TagName = ''other'', ParentTag = Some ''p''\<rparr>])
   \<and> GetUserEffectiveOrgTags
        (Inr [\<lparr>TagID = ''c'', TagName = ''child'', ParentTag = Some ''p''\<rparr>,
              \<lparr>TagID = ''p'', TagName = ''parent'', ParentTag = None\<rparr>,
              \<lparr>TagID = ''x'', TagName = ''other'', ParentTag = Some ''p''\<rparr>])
        \<lparr>uID = 1, uUsername = ''u1'', uRole = ''USER'', uOrgTags = ''c,c'', uPrimaryOrg = ''c''\<rparr>
       = Inr [''c'', ''p'']
   \<and> mset [''p'', ''c''] = mset [''c'', ''p'']
   \<and> closure_of_declared
        [\<lparr>TagID = ''c'', TagName = ''child'', ParentTag = Some ''p''\<rparr>,
         \<lparr>TagID = ''p'', TagName = ''parent'', ParentTag = None\<rparr>,
         \<lparr>TagID = ''x'', TagName = ''other'', ParentTag = Some ''p''\<rparr>]
        \<lparr>uID = 1, uUsername = ''u1'', uRole = ''USER'', uOrgTags = ''c,c'', uPrimaryOrg = ''c''\<rparr>
       = {''c'', ''p''}"
proof -
  let ?tags = "[\<lparr>TagID = ''c'', TagName = ''child'', ParentTag = Some ''p''\<rparr>,
       \<lparr>TagID = ''p'', TagName = ''parent'', ParentTag = None\<rparr>,
       \<lparr>TagID = ''x'', TagName = ''other'', ParentTag = Some ''p''\<rparr>]"
  let ?u = "\<lparr>uID = 1, uUsername = ''u1'', uRole = ''USER'', uOrgTags = ''c,c'', uPrimaryOrg = ''c''\<rparr>"
  have d: "distinct (map TagID ?tags)" by simp
  have run: "GetUserEffectiveOrgTags (Inr ?tags) ?u = Inr [''c'', ''p'']"
    by (simp add: GetUserEffectiveOrgTags_def enqueue_initial_def parentMap_def)
  have m: "mset [''p'', ''c''] = mset [''c'', ''p'']" by simp
  from GetUserEffectiveOrgTags_closure[OF d, of ?u] obtain r where
    r: "GetUserEffectiveOrgTags (Inr ?tags) ?u = Inr r"
       "\<forall>xs. mset xs = mset r \<longrightarrow> set xs = closure_of_declared ?tags ?u \<and> distinct xs"
    by blast
  from r(1) run have "r = [''c'', ''p'']" by simp
  with r(2) m have "set [''p'', ''c''] = closure_of_declared ?tags ?u" by blast
  then have "closure_of_declared ?tags ?u = {''c'', ''p''}" by auto
  with d run m show ?thesis by blast
qed

section \<open>The queries sent by the hybrid search\<close>


lemma normalizeQuery_phrase:
  "snd (normalizeQuery tabs q) = [] \<or> snd (normalizeQuery tabs q) = fst (normalizeQuery tabs q)"
  by (simp add: normalizeQuery_def Let_def)

lemma HybridSearch_no_embedding:
  "env_CreateEmbedding env query = None \<Longrightarrow> fst (HybridSearch env query topK user) = []"
  by (simp add: HybridSearch_def Let_def split: prod.splits)

lemma HybridSearch_sent:
  assumes emb: "env_CreateEmbedding env query = Some v"
    and np: "normalizeQuery (env_tables env) query = (n, p)"
  shows "fst (HybridSearch env query topK user)
           = [build_esQuery v topK n p (uID user) (userEffectiveTags env user)]
         \<or> (p \<noteq> [] \<and> fst (HybridSearch env query topK user)
           = [build_esQuery v topK n p (uID user) (userEffectiveTags env user),
              retryQuery (build_esQuery v topK n p (uID user) (userEffectiveTags env user)) p])"
  by (simp add: HybridSearch_def Let_def np emb split: es_reply.splits)

lemma HybridSearch_sent_fields:
  assumes "env_CreateEmbedding env query = Some v"
    and "q \<in> set (fst (HybridSearch env query topK user))"
  shows "knn_query_vector q = v"
    and "must_match_text_content q = fst (normalizeQuery (env_tables env) query)"
    and "rescore_match_query q = fst (normalizeQuery (env_tables env) query)"
    and "bool_should q = buildPhraseShould (snd (normalizeQuery (env_tables env) query))"
    and "filter_should q = [Term_user_id (uID user), Term_is_public True,
                            Terms_org_tag (userEffectiveTags env user)]"
    and "filter_minimum_should_match q = 1"
proof -
  let ?n = "fst (normalizeQuery (env_tables env) query)"
  let ?p = "snd (normalizeQuery (env_tables env) query)"
  let ?q0 = "build_esQuery v topK ?n ?p (uID user) (userEffectiveTags env user)"
  from HybridSearch_sent[OF assms(1) prod.collapse[symmetric], of topK user] assms(2)
  have "q = ?q0 \<or> (?p \<noteq> [] \<and> q = retryQuery ?q0 ?p)" by auto
  moreover have "?p \<noteq> [] \<Longrightarrow> ?p = ?n" using normalizeQuery_phrase[of "env_tables env" query] by auto
  ultimately have q: "q = ?q0 \<or> q = retryQuery ?q0 ?n" by auto
  show "knn_query_vector q = v" using q by (auto simp: build_esQuery_def retryQuery_def)
  show "must_match_text_content q = ?n" using q by (auto simp: build_esQuery_def retryQuery_def)
  show "rescore_match_query q = ?n" using q by (auto simp: build_esQuery_def retryQuery_def)
  show "bool_should q = buildPhraseShould ?p" using q by (auto simp: build_esQuery_def retryQuery_def)
  show "filter_should q = [Term_user_id (uID user), Term_is_public True,
                            Terms_org_tag (userEffectiveTags env user)]"
    using q by (auto simp: build_esQuery_def retryQuery_def)
  show "filter_minimum_should_match q = 1" using q by (auto simp: build_esQuery_def retryQuery_def)
qed

lemma HybridSearch_sent_nonempty:
  "env_CreateEmbedding env query = Some v \<Longrightarrow> fst (HybridSearch env query topK user) \<noteq> []"
  using HybridSearch_sent[OF _ prod.collapse[symmetric], of env query v topK user] by auto

text \<open>
  Claim C10.  In every query that \<open>HybridSearch\<close> sends, the k-NN clause carries the
  embedding of the original query string, while the \<open>must\<close> match and the rescore match
  carry the normalised query and the \<open>should\<close> clause is built from the core phrase; this
  holds for every embedding client, hence also when the normalised query differs from the
  original one.  When the embedding fails nothing is sent.
\<close>

theorem HybridSearch_knn_vector_original_query:
  "(env_CreateEmbedding env query = None \<longrightarrow> fst (HybridSearch env query topK user) = [])
   \<and> (env_CreateEmbedding env query = Some v \<longrightarrow>
        fst (HybridSearch env query topK user) \<noteq> []
        \<and> (\<forall>q \<in> set (fst (HybridSearch env query topK user)).
              knn_query_vector q = v
            \<and> must_match_text_content q = fst (normalizeQuery (env_tables env) query)
            \<and> rescore_match_query q = fst (normalizeQuery (env_tables env) query)
            \<and> bool_should q = buildPhraseShould (snd (normalizeQuery (env_tables env) query))))"
proof (intro conjI impI ballI)
  assume "env_CreateEmbedding env query = None"
  then show "fst (HybridSearch env query topK user) = []" by (rule HybridSearch_no_embedding)
next
  assume "env_CreateEmbedding env query = Some v"
  then show "fst (HybridSearch env query topK user) \<noteq> []" by (rule HybridSearch_sent_nonempty)
next
  fix q assume a: "env_CreateEmbedding env query = Some v"
    "q \<in> set (fst (HybridSearch env query topK user))"
  show "knn_query_vector q = v" by (rule HybridSearch_sent_fields(1)[OF a])
  show "must_match_text_content q = fst (normalizeQuery (env_tables env) query)"
    by (rule HybridSearch_sent_fields(2)[OF a])
  show "rescore_match_query q = fst (normalizeQuery (env_tables env) query)"
    by (rule HybridSearch_sent_fields(3)[OF a])
  show "bool_should q = buildPhraseShould (snd (normalizeQuery (env_tables env) query))"
    by (rule HybridSearch_sent_fields(4)[OF a])
qed


theorem HybridSearch_knn_vector_original_query_witness:
  "normalizeQuery \<lparr>lowerTable = (\<lambda>r. r), isHan = (\<lambda>r. 0x4E00 \<le> r \<and> r \<le> 0x9FFF)\<rparr> ''Q?'' = (''q'', ''q'')
   \<and> knn_query_vector (hd (fst (HybridSearch
        \<lparr>env_tables = \<lparr>lowerTable = (\<lambda>r. r), isHan = (\<lambda>r. 0x4E00 \<le> r \<and> r \<le> 0x9FFF)\<rparr>,
         env_FindAll = Inr [],
         env_CreateEmbedding = (\<lambda>s. if s = ''Q?'' then Some [1] else if s = ''q'' then Some [2] else None),
         env_Search = (\<lambda>q. EsHits []),
         env_FindBatchByMD5s = (\<lambda>md5s. Some [])\<rparr>
        ''Q?'' 10
        \<lparr>uID = 7, uUsername = ''u'', uRole = ''USER'', uOrgTags = ''a'', uPrimaryOrg = ''a''\<rparr>))) = [1]
   \<and> must_match_text_content (hd (fst (HybridSearch
        \<lparr>env_tables = \<lparr>lowerTable = (\<lambda>r. r), isHan = (\<lambda>r. 0x4E00 \<le> r \<and> r \<le> 0x9FFF)\<rparr>,
         env_FindAll = Inr [],
         env_CreateEmbedding = (\<lambda>s. if s = ''Q?'' then Some [1] else if s = ''q'' then Some [2] else None),
         env_Search = (\<lambda>q. EsHits []),
         env_FindBatchByMD5s = (\<lambda>md5s. Some [])\<rparr>
        ''Q?'' 10
        \<lparr>uID = 7, uUsername = ''u'', uRole = ''USER'', uOrgTags = ''a'', uPrimaryOrg = ''a''\<rparr>))) = ''q''"
proof -
  let ?tabs = "\<lparr>lowerTable = (\<lambda>r. r), isHan = (\<lambda>r. 0x4E00 \<le> r \<and> r \<le> 0x9FFF)\<rparr>"
  let ?env = "\<lparr>env_tables = ?tabs,
         env_FindAll = Inr [],
         env_CreateEmbedding = (\<lambda>s. if s = ''Q?'' then Some [1::real] else if s = ''q'' then Some [2] else None),
         env_Search = (\<lambda>q. EsHits []),
         env_FindBatchByMD5s = (\<lambda>md5s. Some [])\<rparr>"
  let ?u = "\<lparr>uID = 7, uUsername = ''u'', uRole = ''USER'', uOrgTags = ''a'', uPrimaryOrg = ''a''\<rparr>"
  have nq: "normalizeQuery ?tabs ''Q?'' = (''q'', ''q'')"
    by (simp add: normalizeQuery_def ToLower_def unicode_ToLower_def runes_of_def string_of_runes_def
      EncodeRune_def stopPhrases_def reKeep_ReplaceAllString_def reKeep_class_def re_space_def
      reSpace_ReplaceAllString_def TrimSpace_def unicode_IsSpace_def char_eval Let_def)
  have emb: "env_CreateEmbedding ?env ''Q?'' = Some [1]" by simp
  from HybridSearch_knn_vector_original_query[of ?env "''Q?''" 10 ?u "[1]"] emb
  have ne: "fst (HybridSearch ?env ''Q?'' 10 ?u) \<noteq> []"
    and all: "\<forall>q \<in> set (fst (HybridSearch ?env ''Q?'' 10 ?u)).
              knn_query_vector q = [1]
            \<and> must_match_text_content q = fst (normalizeQuery (env_tables ?env) ''Q?'')"
    by blast+
  from ne have "hd (fst (HybridSearch ?env ''Q?'' 10 ?u)) \<in> set (fst (HybridSearch ?env ''Q?'' 10 ?u))"
    by (rule hd_in_set)
  with all have "knn_query_vector (hd (fst (HybridSearch ?env ''Q?'' 10 ?u))) = [1]"
    "must_match_text_content (hd (fst (HybridSearch ?env ''Q?'' 10 ?u))) = fst (normalizeQuery (env_tables ?env) ''Q?'')"
    by blast+
  with nq show ?thesis by simp
qed


lemma filter_admits_three:
  assumes "filter_should q = [Term_user_id u, Term_is_public True, Terms_org_tag tags]"
    and "filter_minimum_should_match q = 1"
  shows "filter_admits q doc \<longleftrightarrow> (es_UserID doc = u \<or> es_IsPublic doc \<or> es_OrgTag doc \<in> set tags)"
proof -
  have "(1::int) \<le> int (length (filter P [a, b, c])) \<longleftrightarrow> P a \<or> P b \<or> P c" for P :: "filter_clause \<Rightarrow> bool" and a b c
    by simp
  then show ?thesis by (simp add: filter_admits_def assms)
qed

lemma userEffectiveTags_closure:
  assumes "env_FindAll env = Inr allTags" "distinct (map TagID allTags)"
  shows "set (userEffectiveTags env user) = closure_of_declared allTags user"
proof -
  from GetUserEffectiveOrgTags_set[OF assms(2), of user] obtain r where
    r: "GetUserEffectiveOrgTags (Inr allTags) user = Inr r" "set r = closure_of_declared allTags user"
    by blast
  then show ?thesis by (simp add: userEffectiveTags_def assms(1))
qed

lemma userEffectiveTags_unavailable:
  "env_FindAll env = Inl e \<Longrightarrow> userEffectiveTags env user = []"
  by (simp add: userEffectiveTags_def GetUserEffectiveOrgTags_def)

text \<open>
  Claim C1 (as amended).  Every query that \<open>HybridSearch\<close> sends to the indexer carries
  the filter made of exactly the three \<open>should\<close> clauses \<open>user_id = user.ID\<close>,
  \<open>is_public = true\<close> and \<open>org_tag\<close> among the tag list of step 1, with
  \<open>minimum_should_match = 1\<close>, so that the filter admits a document exactly when one of
  the three holds.  The tag list of step 1 is the user's effective tag set (the closure of
  the declared tags) when the resolver answers, and the empty list when the resolver
  returns an error.  When the query embedding is available at least one query is sent.
\<close>

theorem HybridSearch_access_filter:
  "(\<forall>q \<in> set (fst (HybridSearch env query topK user)).
        filter_should q = [Term_user_id (uID user), Term_is_public True,
                           Terms_org_tag (userEffectiveTags env user)]
      \<and> filter_minimum_should_match q = 1
      \<and> (\<forall>doc. filter_admits q doc \<longleftrightarrow>
                  (es_UserID doc = uID user \<or> es_IsPublic doc
                   \<or> es_OrgTag doc \<in> set (userEffectiveTags env user))))
   \<and> (env_FindAll env = Inr allTags \<and> distinct (map TagID allTags) \<longrightarrow>
        set (userEffectiveTags env user) = closure_of_declared allTags user)
   \<and> (env_FindAll env = Inl e \<longrightarrow> userEffectiveTags env user = [])
   \<and> (env_CreateEmbedding env query = Some v \<longrightarrow> fst (HybridSearch env query topK user) \<noteq> [])"
proof (intro conjI ballI impI allI)
  fix q assume q: "q \<in> set (fst (HybridSearch env query topK user))"
  have "env_CreateEmbedding env query \<noteq> None"
  proof
    assume "env_CreateEmbedding env query = None"
    then have "fst (HybridSearch env query topK user) = []" by (rule HybridSearch_no_embedding)
    with q show False by simp
  qed
  then obtain w where w: "env_CreateEmbedding env query = Some w" by blast
  show fs: "filter_should q = [Term_user_id (uID user), Term_is_public True,
                           Terms_org_tag (userEffectiveTags env user)]"
    by (rule HybridSearch_sent_fields(5)[OF w q])
  show fm: "filter_minimum_should_match q = 1"
    by (rule HybridSearch_sent_fields(6)[OF w q])
  fix doc
  show "filter_admits q doc \<longleftrightarrow>
                  (es_UserID doc = uID user \<or> es_IsPublic doc
                   \<or> es_OrgTag doc \<in> set (userEffectiveTags env user))"
    by (rule filter_admits_three[OF fs fm])
next
  assume "env_FindAll env = Inr allTags \<and> distinct (map TagID allTags)"
  then show "set (userEffectiveTags env user) = closure_of_declared allTags user"
    using userEffectiveTags_closure by blast
next
  assume "env_FindAll env = Inl e"
  then show "userEffectiveTags env user = []" by (rule userEffectiveTags_unavailable)
next
  assume "env_CreateEmbedding env query = Some v"
  then show "fst (HybridSearch env query topK user) \<noteq> []" by (rule HybridSearch_sent_nonempty)
qed


theorem HybridSearch_access_filter_witness:
  "env_FindAll
      \<lparr>env_tables = \<lparr>lowerTable = (\<lambda>r. r), isHan = (\<lambda>r. False)\<rparr>,
       env_FindAll = Inr [\<lparr>TagID = ''c'', TagName = ''child'', ParentTag = Some ''p''\<rparr>,
                          \<lparr>TagID = ''p'', TagName = ''parent'', ParentTag = None\<rparr>],
       env_CreateEmbedding = (\<lambda>s. Some [1]),
       env_Search = (\<lambda>q. EsHits []),
       env_FindBatchByMD5s = (\<lambda>md5s. Some [])\<rparr>
     = Inr [\<lparr>TagID = ''c'', TagName = ''child'', ParentTag = Some ''p''\<rparr>,
            \<lparr>TagID = ''p'', TagName = ''parent'', ParentTag = None\<rparr>]
   \<and> distinct (map TagID [\<lparr>TagID = ''c'', TagName = ''child'', ParentTag = Some ''p''\<rparr>,
                            \<lparr>TagID = ''p'', TagName = ''parent'', ParentTag = None\<rparr>])
   \<and> filter_should (hd (fst (HybridSearch
      \<lparr>env_tables = \<lparr>lowerTable = (\<lambda>r. r), isHan = (\<lambda>r. False)\<rparr>,
       env_FindAll = Inr [\<lparr>TagID = ''c'', TagName = ''child'', ParentTag = Some ''p''\<rparr>,
                          \<lparr>TagID = ''p'', TagName = ''parent'', ParentTag = None\<rparr>],
       env_CreateEmbedding = (\<lambda>s. Some [1]),
       env_Search = (\<lambda>q. EsHits []),
       env_FindBatchByMD5s = (\<lambda>md5s. Some [])\<rparr>
      ''x'' 10
      \<lparr>uID = 7, uUsername = ''u1'', uRole = ''USER'', uOrgTags = ''c'', uPrimaryOrg = ''c''\<rparr>)))
     = [Term_user_id 7, Term_is_public True, Terms_org_tag [''c'', ''p'']]
   \<and> filter_admits (hd (fst (HybridSearch
      \<lparr>env_tables = \<lparr>lowerTable = (\<lambda>r. r), isHan = (\<lambda>r. False)\<rparr>,
       env_FindAll = Inr [\<lparr>TagID = ''c'', TagName = ''child'', ParentTag = Some ''p''\<rparr>,
                          \<lparr>TagID = ''p'', TagName = ''parent'', ParentTag = None\<rparr>],
       env_CreateEmbedding = (\<lambda>s. Some [1]),
       env_Search = (\<lambda>q. EsHits []),
       env_FindBatchByMD5s = (\<lambda>md5s. Some [])\<rparr>
      ''x'' 10
      \<lparr>uID = 7, uUsername = ''u1'', uRole = ''USER'', uOrgTags = ''c'', uPrimaryOrg = ''c''\<rparr>)))
      \<lparr>es_VectorID = ''m_0'', es_FileMD5 = ''m'', es_ChunkID = 0, es_TextContent = ''t'',
       es_Vector = [1], es_ModelVersion = ''v'', es_UserID = 9, es_OrgTag = ''p'',
       es_IsPublic = False\<rparr>
   \<and> closure_of_declared [\<lparr>TagID = ''c'', TagName = ''child'', ParentTag = Some ''p''\<rparr>,
                           \<lparr>TagID = ''p'', TagName = ''parent'', ParentTag = None\<rparr>]
        \<lparr>uID = 7, uUsername = ''u1'', uRole = ''USER'', uOrgTags = ''c'', uPrimaryOrg = ''c''\<rparr>
     = {''c'', ''p''}"
proof -
  let ?tags = "[\<lparr>TagID = ''c'', TagName = ''child'', ParentTag = Some ''p''\<rparr>,
                \<lparr>TagID = ''p'', TagName = ''parent'', ParentTag = None\<rparr>]"
  let ?env = "\<lparr>env_tables = \<lparr>lowerTable = (\<lambda>r. r), isHan = (\<lambda>r. False)\<rparr>,
       env_FindAll = Inr ?tags,
       env_CreateEmbedding = (\<lambda>s. Some [1::real]),
       env_Search = (\<lambda>q. EsHits []),
       env_FindBatchByMD5s = (\<lambda>md5s. Some [])\<rparr>"
  let ?u = "\<lparr>uID = 7, uUsername = ''u1'', uRole = ''USER'', uOrgTags = ''c'', uPrimaryOrg = ''c''\<rparr>"
  let ?doc = "\<lparr>es_VectorID = ''m_0'', es_FileMD5 = ''m'', es_ChunkID = 0, es_TextContent = ''t'',
       es_Vector = [1], es_ModelVersion = ''v'', es_UserID = 9, es_OrgTag = ''p'',
       es_IsPublic = False\<rparr>"
  let ?sent = "fst (HybridSearch ?env ''x'' 10 ?u)"
  have fa: "env_FindAll ?env = Inr ?tags" by simp
  have d: "distinct (map TagID ?tags)" by simp
  have emb: "env_CreateEmbedding ?env ''x'' = Some [1]" by simp
  have tags: "userEffectiveTags ?env ?u = [''c'', ''p'']"
    by (simp add: userEffectiveTags_def GetUserEffectiveOrgTags_def enqueue_initial_def parentMap_def)
  note th = HybridSearch_access_filter[of ?env "''x''" 10 ?u ?tags ErrTagListUnavailable "[1]"]
  from th emb have ne: "?sent \<noteq> []" by blast
  then have hd: "hd ?sent \<in> set ?sent" by (rule hd_in_set)
  from th hd have fs: "filter_should (hd ?sent)
      = [Term_user_id (uID ?u), Term_is_public True, Terms_org_tag (userEffectiveTags ?env ?u)]"
    and adm: "filter_admits (hd ?sent) ?doc \<longleftrightarrow>
          (es_UserID ?doc = uID ?u \<or> es_IsPublic ?doc \<or> es_OrgTag ?doc \<in> set (userEffectiveTags ?env ?u))"
    by blast+
  from th fa d have "set (userEffectiveTags ?env ?u) = closure_of_declared ?tags ?u" by blast
  with tags have cl: "closure_of_declared ?tags ?u = {''c'', ''p''}" by auto
  from fs tags have fs': "filter_should (hd ?sent)
      = [Term_user_id 7, Term_is_public True, Terms_org_tag [''c'', ''p'']]" by simp
  from adm tags have adm': "filter_admits (hd ?sent) ?doc" by simp
  from fa d fs' adm' cl show ?thesis by blast
qed


text \<open>
  The claim as first stated fails when the tag table cannot be read.  The user declares
  the tag \<open>c\<close>, which belongs to the effective tag set (with the table readable the
  resolver returns it), but the filter that is sent has an empty tag list in its third
  clause and does not admit a private document of another user that carries the tag
  \<open>c\<close>.
\<close>

theorem HybridSearch_access_filter_counterexample:
  "filter_should (hd (fst (HybridSearch
      \<lparr>env_tables = \<lparr>lowerTable = (\<lambda>r. r), isHan = (\<lambda>r. False)\<rparr>,
       env_FindAll = Inl ErrTagListUnavailable,
       env_CreateEmbedding = (\<lambda>s. Some [1]),
       env_Search = (\<lambda>q. EsHits []),
       env_FindBatchByMD5s = (\<lambda>md5s. Some [])\<rparr>
      ''x'' 10
      \<lparr>uID = 7, uUsername = ''u1'', uRole = ''USER'', uOrgTags = ''c'', uPrimaryOrg = ''c''\<rparr>)))
     = [Term_user_id 7, Term_is_public True, Terms_org_tag []]
   \<and> GetUserEffectiveOrgTags
        (Inr [\<lparr>TagID = ''c'', TagName = ''child'', ParentTag = None\<rparr>])
        \<lparr>uID = 7, uUsername = ''u1'', uRole = ''USER'', uOrgTags = ''c'', uPrimaryOrg = ''c''\<rparr>
     = Inr [''c'']
   \<and> es_OrgTag
      \<lparr>es_VectorID = ''m_0'', es_FileMD5 = ''m'', es_ChunkID = 0, es_TextContent = ''t'',
       es_Vector = [1], es_ModelVersion = ''v'', es_UserID = 9, es_OrgTag = ''c'',
       es_IsPublic = False\<rparr>
      \<in> set (declared_tags
        \<lparr>uID = 7, uUsername = ''u1'', uRole = ''USER'', uOrgTags = ''c'', uPrimaryOrg = ''c''\<rparr>)
   \<and> \<not> filter_admits (hd (fst (HybridSearch
      \<lparr>env_tables = \<lparr>lowerTable = (\<lambda>r. r), isHan = (\<lambda>r. False)\<rparr>,
       env_FindAll = Inl ErrTagListUnavailable,
       env_CreateEmbedding = (\<lambda>s. Some [1]),
       env_Search = (\<lambda>q. EsHits []),
       env_FindBatchByMD5s = (\<lambda>md5s. Some [])\<rparr>
      ''x'' 10
      \<lparr>uID = 7, uUsername = ''u1'', uRole = ''USER'', uOrgTags = ''c'', uPrimaryOrg = ''c''\<rparr>)))
      \<lparr>es_VectorID = ''m_0'', es_FileMD5 = ''m'', es_ChunkID = 0, es_TextContent = ''t'',
       es_Vector = [1], es_ModelVersion = ''v'', es_UserID = 9, es_OrgTag = ''c'',
       es_IsPublic = False\<rparr>"
proof -
  let ?env = "\<lparr>env_tables = \<lparr>lowerTable = (\<lambda>r. r), isHan = (\<lambda>r. False)\<rparr>,
       env_FindAll = Inl ErrTagListUnavailable,
       env_CreateEmbedding = (\<lambda>s. Some [1::real]),
       env_Search = (\<lambda>q. EsHits []),
       env_FindBatchByMD5s = (\<lambda>md5s. Some [])\<rparr>"
  let ?u = "\<lparr>uID = 7, uUsername = ''u1'', uRole = ''USER'', uOrgTags = ''c'', uPrimaryOrg = ''c''\<rparr>"
  let ?doc = "\<lparr>es_VectorID = ''m_0'', es_FileMD5 = ''m'', es_ChunkID = 0, es_TextContent = ''t'',
       es_Vector = [1], es_ModelVersion = ''v'', es_UserID = 9, es_OrgTag = ''c'',
       es_IsPublic = False\<rparr>"
  let ?sent = "fst (HybridSearch ?env ''x'' 10 ?u)"
  have emb: "env_CreateEmbedding ?env ''x'' = Some [1]" by simp
  have tags: "userEffectiveTags ?env ?u = []"
    by (simp add: userEffectiveTags_def GetUserEffectiveOrgTags_def)
  have eff: "GetUserEffectiveOrgTags
        (Inr [\<lparr>TagID = ''c'', TagName = ''child'', ParentTag = None\<rparr>]) ?u = Inr [''c'']"
    by (simp add: GetUserEffectiveOrgTags_def enqueue_initial_def parentMap_def)
  have "?sent \<noteq> []" using emb by (rule HybridSearch_sent_nonempty)
  then have hd: "hd ?sent \<in> set ?sent" by (rule hd_in_set)
  have fs: "filter_should (hd ?sent) = [Term_user_id 7, Term_is_public True, Terms_org_tag []]"
    using HybridSearch_sent_fields(5)[OF emb hd] tags by simp
  have fm: "filter_minimum_should_match (hd ?sent) = 1"
    by (rule HybridSearch_sent_fields(6)[OF emb hd])
  have na: "\<not> filter_admits (hd ?sent) ?doc"
    using filter_admits_three[OF fs fm, of ?doc] by simp
  have decl: "es_OrgTag ?doc \<in> set (declared_tags ?u)"
    by (simp add: declared_tags_def)
  from fs eff decl na show ?thesis by blast
qed
section \<open>The handler's treatment of \<open>topK\<close>\<close>

lemma Atoi_zero: "Atoi ''0'' = Some 0"
  by (simp add: Atoi_def is_digit_def)

text \<open>
  Claim C8 (as amended).  A search request with \<open>topK = 0\<close> is not rejected: the handler
  answers 400 only for an empty query, and for a non-empty query of an authenticated user
  it invokes the search service with \<open>topK = 10\<close> and answers 200 with its results.
\<close>

theorem SearchHandler_topK_zero_defaults:
  assumes "req_params c ''topK'' = Some ''0''"
  shows "(resp_status (SearchHandler_HybridSearch searchService c) = StatusBadRequest
            \<longleftrightarrow> Query c ''query'' = [])
       \<and> (Query c ''query'' \<noteq> [] \<and> req_user c = Some user \<longrightarrow>
            resp_invoked (SearchHandler_HybridSearch searchService c)
              = Some (Query c ''query'', 10, user)
          \<and> (searchService (Query c ''query'') 10 user = Inr results \<longrightarrow>
               resp_status (SearchHandler_HybridSearch searchService c) = StatusOK
             \<and> resp_data (SearchHandler_HybridSearch searchService c) = results))"
  using assms
  by (auto simp: SearchHandler_HybridSearch_def DefaultQuery_def Atoi_zero Let_def
      StatusBadRequest_def StatusOK_def StatusInternalServerError_def
      split: option.splits sum.splits)

theorem SearchHandler_topK_zero_defaults_witness:
  "req_params \<lparr>req_params = [''query'' \<mapsto> ''x'', ''topK'' \<mapsto> ''0''],
               req_user = Some \<lparr>uID = 7, uUsername = ''u'', uRole = ''USER'', uOrgTags = ''a'', uPrimaryOrg = ''a''\<rparr>\<rparr>
      ''topK'' = Some ''0''
   \<and> resp_invoked (SearchHandler_HybridSearch (\<lambda>q k u. Inr [])
        \<lparr>req_params = [''query'' \<mapsto> ''x'', ''topK'' \<mapsto> ''0''],
         req_user = Some \<lparr>uID = 7, uUsername = ''u'', uRole = ''USER'', uOrgTags = ''a'', uPrimaryOrg = ''a''\<rparr>\<rparr>)
     = Some (''x'', 10, \<lparr>uID = 7, uUsername = ''u'', uRole = ''USER'', uOrgTags = ''a'', uPrimaryOrg = ''a''\<rparr>)
   \<and> resp_status (SearchHandler_HybridSearch (\<lambda>q k u. Inr [])
        \<lparr>req_params = [''query'' \<mapsto> ''x'', ''topK'' \<mapsto> ''0''],
         req_user = Some \<lparr>uID = 7, uUsername = ''u'', uRole = ''USER'', uOrgTags = ''a'', uPrimaryOrg = ''a''\<rparr>\<rparr>)
     = 200"
proof -
  let ?u = "\<lparr>uID = 7, uUsername = ''u'', uRole = ''USER'', uOrgTags = ''a'', uPrimaryOrg = ''a''\<rparr>"
  let ?c = "\<lparr>req_params = [''query'' \<mapsto> ''x'', ''topK'' \<mapsto> ''0''], req_user = Some ?u\<rparr>"
  have p: "req_params ?c ''topK'' = Some ''0''" by simp
  have q: "Query ?c ''query'' = ''x''" by (simp add: Query_def)
  from SearchHandler_topK_zero_defaults[OF p, of "\<lambda>q k u. Inr []" ?u "[]"] q
  show ?thesis by (simp add: StatusOK_def)
qed

text \<open>
  The claim as first stated fails: the request \<open>query=x&topK=0\<close> is answered with status
  200 after a search with \<open>topK = 10\<close>, not with an invalid-argument error.
\<close>

theorem SearchHandler_topK_zero_counterexample:
  "resp_status (SearchHandler_HybridSearch (\<lambda>q k u. Inr [])
        \<lparr>req_params = [''query'' \<mapsto> ''x'', ''topK'' \<mapsto> ''0''],
         req_user = Some \<lparr>uID = 7, uUsername = ''u'', uRole = ''USER'', uOrgTags = ''a'', uPrimaryOrg = ''a''\<rparr>\<rparr>)
     = 200
   \<and> resp_status (SearchHandler_HybridSearch (\<lambda>q k u. Inr [])
        \<lparr>req_params = [''query'' \<mapsto> ''x'', ''topK'' \<mapsto> ''0''],
         req_user = Some \<lparr>uID = 7, uUsername = ''u'', uRole = ''USER'', uOrgTags = ''a'', uPrimaryOrg = ''a''\<rparr>\<rparr>)
     \<noteq> StatusBadRequest
   \<and> resp_invoked (SearchHandler_HybridSearch (\<lambda>q k u. Inr [])
        \<lparr>req_params = [''query'' \<mapsto> ''x'', ''topK'' \<mapsto> ''0''],
         req_user = Some \<lparr>uID = 7, uUsername = ''u'', uRole = ''USER'', uOrgTags = ''a'', uPrimaryOrg = ''a''\<rparr>\<rparr>)
     = Some (''x'', 10, \<lparr>uID = 7, uUsername = ''u'', uRole = ''USER'', uOrgTags = ''a'', uPrimaryOrg = ''a''\<rparr>)"
  by (simp add: SearchHandler_HybridSearch_def Query_def DefaultQuery_def Atoi_zero Let_def
      StatusBadRequest_def StatusOK_def)

section \<open>Properties of the text splitter\<close>

lemma runes_of_empty_iff: "runes_of s = [] \<longleftrightarrow> s = []"
  by (cases s) (simp_all add: runes_of_def)

lemma EncodeRune_nonempty: "EncodeRune r \<noteq> []"
  by (simp add: EncodeRune_def)

lemma string_of_runes_empty_iff: "string_of_runes rs = [] \<longleftrightarrow> rs = []"
  by (cases rs) (simp_all add: string_of_runes_def EncodeRune_nonempty)

lemma slice_nat: "slice xs (int I) (int E) = take (E - I) (drop I xs)"
proof -
  have "nat (int E - int I) = E - I" by arith
  then show ?thesis by (simp add: slice_def)
qed

lemma slice_window:
  assumes "I < length runes" "0 < C"
  shows "slice runes (int I) (if int I + int C > int (length runes) then int (length runes) else int I + int C)
         = take C (drop I runes)"
proof (cases "length runes < I + C")
  case True
  then have "slice runes (int I) (int (length runes)) = take C (drop I runes)"
    by (simp add: slice_nat)
  with True show ?thesis by simp
next
  case False
  have "slice runes (int I) (int I + int C) = take C (drop I runes)"
    using slice_nat[of runes I "I + C"] by simp
  with False show ?thesis by simp
qed

lemma simpleSplit_loop_windows:
  assumes "0 < C"
  shows "\<exists>m. simpleSplit_loop runes (int C) (int I) acc
            = Some (Inr (acc @ map (\<lambda>j. string_of_runes (take C (drop (I + C * j) runes))) [0..<m]))
          \<and> length runes \<le> I + C * m \<and> (\<forall>j<m. I + C * j < length runes)"
proof (induction "length runes - I" arbitrary: I acc rule: less_induct)
  case less
  show ?case
  proof (cases "I < length runes")
    case False
    then have "simpleSplit_loop runes (int C) (int I) acc = Some (Inr acc)"
      by (subst simpleSplit_loop.simps) simp
    with False show ?thesis by (intro exI[of _ 0]) simp
  next
    case True
    let ?w = "string_of_runes (take C (drop I runes))"
    have step: "simpleSplit_loop runes (int C) (int I) acc
          = simpleSplit_loop runes (int C) (int (I + C)) (acc @ [?w])"
      using True assms slice_window[OF True assms]
      by (subst simpleSplit_loop.simps) (simp add: Let_def)
    have "length runes - (I + C) < length runes - I" using True assms by simp
    from less[OF this, of "acc @ [?w]"] obtain m where
      m: "simpleSplit_loop runes (int C) (int (I + C)) (acc @ [?w])
            = Some (Inr ((acc @ [?w]) @ map (\<lambda>j. string_of_runes (take C (drop (I + C + C * j) runes))) [0..<m]))"
         "length runes \<le> I + C + C * m" "\<forall>j<m. I + C + C * j < length runes"
      by blast
    have "map (\<lambda>j. string_of_runes (take C (drop (I + C * j) runes))) [0..<Suc m]
          = ?w # map (\<lambda>j. string_of_runes (take C (drop (I + C + C * j) runes))) [0..<m]"
      by (simp add: upt_conv_Cons map_Suc_upt[symmetric] add.assoc del: upt_Suc)
    moreover have "\<forall>j<Suc m. I + C * j < length runes"
      using m(3) True by (auto simp: less_Suc_eq_0_disj add.assoc)
    ultimately show ?thesis using step m(1,2)
      by (intro exI[of _ "Suc m"]) (simp del: upt_Suc)
  qed
qed


lemma splitText_loop_windows:
  assumes "0 < S" "S \<le> C" "I < length runes"
  shows "\<exists>m>0. splitText_loop runes (int C) (int S) (int I) acc
            = Some (Inr (acc @ map (\<lambda>j. string_of_runes (take C (drop (I + S * j) runes))) [0..<m]))
          \<and> length runes \<le> I + S * (m - 1) + C
          \<and> (\<forall>j<m - 1. I + S * j + C < length runes)"
  using assms(3)
proof (induction "length runes - I" arbitrary: I acc rule: less_induct)
  case less
  have C: "0 < C" using assms by simp
  let ?w = "string_of_runes (take C (drop I runes))"
  show ?case
  proof (cases "length runes \<le> I + C")
    case True
    have "(if int I + int C > int (length runes) then int (length runes) else int I + int C)
            = int (length runes)" using True by auto
    then have "splitText_loop runes (int C) (int S) (int I) acc = Some (Inr (acc @ [?w]))"
      using less.prems slice_window[OF less.prems C]
      by (subst splitText_loop.simps) (simp add: Let_def)
    with True show ?thesis by (intro exI[of _ 1]) simp
  next
    case False
    then have "(if int I + int C > int (length runes) then int (length runes) else int I + int C)
            = int I + int C" by auto
    then have step: "splitText_loop runes (int C) (int S) (int I) acc
          = splitText_loop runes (int C) (int S) (int (I + S)) (acc @ [?w])"
      using False less.prems slice_window[OF less.prems C]
      by (subst splitText_loop.simps) (simp add: Let_def)
    have lt: "I + S < length runes" using False assms by simp
    have "length runes - (I + S) < length runes - I" using less.prems assms by simp
    from less.hyps[OF this lt, of "acc @ [?w]"] obtain m where
      m: "0 < m" "splitText_loop runes (int C) (int S) (int (I + S)) (acc @ [?w])
            = Some (Inr ((acc @ [?w]) @ map (\<lambda>j. string_of_runes (take C (drop (I + S + S * j) runes))) [0..<m]))"
         "length runes \<le> I + S + S * (m - 1) + C"
         "\<forall>j<m - 1. I + S + S * j + C < length runes"
      by blast
    have "map (\<lambda>j. string_of_runes (take C (drop (I + S * j) runes))) [0..<Suc m]
          = ?w # map (\<lambda>j. string_of_runes (take C (drop (I + S + S * j) runes))) [0..<m]"
      by (simp add: upt_conv_Cons map_Suc_upt[symmetric] add.assoc del: upt_Suc)
    moreover have "\<forall>j<Suc m - 1. I + S * j + C < length runes"
    proof (intro allI impI)
      fix j assume j: "j < Suc m - 1"
      show "I + S * j + C < length runes"
      proof (cases j)
        case 0 then show ?thesis using False by simp
      next
        case (Suc k)
        then have "k < m - 1" using j by simp
        with m(4) have "I + S + S * k + C < length runes" by blast
        then show ?thesis using Suc by (simp add: add.assoc)
      qed
    qed
    moreover have "length runes \<le> I + S * (Suc m - 1) + C"
      using m(1,3) by (cases m) (auto simp: add.assoc)
    ultimately show ?thesis using step m(2)
      by (intro exI[of _ "Suc m"]) (simp del: upt_Suc)
  qed
qed


lemma concat_windows:
  "length xs \<le> C * m \<Longrightarrow> concat (map (\<lambda>j. take C (drop (C * j) xs)) [0..<m]) = xs"
proof (induction m arbitrary: xs)
  case 0
  then show ?case by simp
next
  case (Suc m)
  have "map (\<lambda>j. take C (drop (C * j) xs)) [0..<Suc m]
        = take C xs # map (\<lambda>j. take C (drop (C * j) (drop C xs))) [0..<m]"
    by (simp add: upt_conv_Cons map_Suc_upt[symmetric] add.commute del: upt_Suc)
  moreover have "length (drop C xs) \<le> C * m" using Suc.prems by simp
  ultimately show ?case using Suc.IH[of "drop C xs"] by (simp del: upt_Suc)
qed

text \<open>
  Claim C3.  For a non-empty text, \<open>splitText text 1000 100\<close> returns \<open>m > 0\<close> chunks,
  chunk \<open>j\<close> being the (at most) 1000 code points of the text that start at code point
  \<open>900 * j\<close>; no chunk is empty, every chunk but the last has exactly 1000 code points,
  and the last one runs to the end of the text.  When \<open>0 < chunkSize \<le> chunkOverlap\<close> the
  result is the non-overlapping windows of \<open>chunkSize\<close> code points, none empty, whose
  concatenation is the code point sequence of the text.  An empty text gives no chunks.
\<close>

theorem splitText_windows:
  "(s \<noteq> [] \<longrightarrow>
      (\<exists>m>0. splitText s 1000 100
                = Some (Inr (map (\<lambda>j. string_of_runes (take 1000 (drop (900 * j) (runes_of s)))) [0..<m]))
         \<and> (\<forall>j<m. take 1000 (drop (900 * j) (runes_of s)) \<noteq> []
                  \<and> string_of_runes (take 1000 (drop (900 * j) (runes_of s))) \<noteq> [])
         \<and> (\<forall>j<m - 1. length (take 1000 (drop (900 * j) (runes_of s))) = 1000)
         \<and> take 1000 (drop (900 * (m - 1)) (runes_of s)) = drop (900 * (m - 1)) (runes_of s)))
   \<and> (0 < chunkSize \<and> chunkSize \<le> chunkOverlap \<longrightarrow>
      (\<exists>m. splitText s chunkSize chunkOverlap
                = Some (Inr (map (\<lambda>j. string_of_runes (take (nat chunkSize) (drop (nat chunkSize * j) (runes_of s)))) [0..<m]))
         \<and> (\<forall>j<m. take (nat chunkSize) (drop (nat chunkSize * j) (runes_of s)) \<noteq> [])
         \<and> concat (map (\<lambda>j. take (nat chunkSize) (drop (nat chunkSize * j) (runes_of s))) [0..<m])
             = runes_of s))
   \<and> splitText [] chunkSize chunkOverlap = Some (Inr [])"
proof (intro conjI impI)
  define runes where "runes = runes_of s"
  assume "s \<noteq> []"
  then have ne: "runes \<noteq> []" by (simp add: runes_def runes_of_empty_iff)
  then have len: "0 < length runes" by simp
  have "(0::nat) < 900" "(900::nat) \<le> 1000" by simp_all
  from splitText_loop_windows[OF this len, of "[]"] obtain m where
    m: "0 < m"
       "splitText_loop runes (int 1000) (int 900) (int 0) []
          = Some (Inr ([] @ map (\<lambda>j. string_of_runes (take 1000 (drop (0 + 900 * j) runes))) [0..<m]))"
       "length runes \<le> 0 + 900 * (m - 1) + 1000"
       "\<forall>j<m - 1. 0 + 900 * j + 1000 < length runes"
    by blast
  have run: "splitText s 1000 100
          = Some (Inr (map (\<lambda>j. string_of_runes (take 1000 (drop (900 * j) runes))) [0..<m]))"
    using m(2) ne by (simp add: splitText_def runes_def)
  have full: "\<forall>j<m - 1. length (take 1000 (drop (900 * j) runes)) = 1000"
    using m(4) by auto
  have starts: "\<forall>j<m. 900 * j < length runes"
  proof (intro allI impI)
    fix j assume j: "j < m"
    show "900 * j < length runes"
    proof (cases j)
      case 0 then show ?thesis using len by simp
    next
      case (Suc k)
      then have "k < m - 1" using j by simp
      with m(4) have "0 + 900 * k + 1000 < length runes" by blast
      then show ?thesis using Suc by simp
    qed
  qed
  then have nonempty: "\<forall>j<m. take 1000 (drop (900 * j) runes) \<noteq> []
                  \<and> string_of_runes (take 1000 (drop (900 * j) runes)) \<noteq> []"
    by (auto simp: string_of_runes_empty_iff)
  have lastw: "take 1000 (drop (900 * (m - 1)) runes) = drop (900 * (m - 1)) runes"
    using m(3) by simp
  show "\<exists>m>0. splitText s 1000 100
                = Some (Inr (map (\<lambda>j. string_of_runes (take 1000 (drop (900 * j) (runes_of s)))) [0..<m]))
         \<and> (\<forall>j<m. take 1000 (drop (900 * j) (runes_of s)) \<noteq> []
                  \<and> string_of_runes (take 1000 (drop (900 * j) (runes_of s))) \<noteq> [])
         \<and> (\<forall>j<m - 1. length (take 1000 (drop (900 * j) (runes_of s))) = 1000)
         \<and> take 1000 (drop (900 * (m - 1)) (runes_of s)) = drop (900 * (m - 1)) (runes_of s)"
    using m(1) run nonempty full lastw unfolding runes_def by blast
next
  define runes where "runes = runes_of s"
  assume a: "0 < chunkSize \<and> chunkSize \<le> chunkOverlap"
  define C where "C = nat chunkSize"
  have C: "0 < C" "chunkSize = int C" using a by (simp_all add: C_def)
  from simpleSplit_loop_windows[OF C(1), of runes 0 "[]"] obtain m where
    m: "simpleSplit_loop runes (int C) (int 0) []
          = Some (Inr ([] @ map (\<lambda>j. string_of_runes (take C (drop (0 + C * j) runes))) [0..<m]))"
       "length runes \<le> 0 + C * m" "\<forall>j<m. 0 + C * j < length runes"
    by blast
  have m0: "runes = [] \<Longrightarrow> m = 0"
  proof (rule ccontr)
    assume e: "runes = []" and "m \<noteq> 0"
    then have "0 < m" by simp
    with m(3) have "0 + C * 0 < length runes" by blast
    with e show False by simp
  qed
  have run: "splitText s chunkSize chunkOverlap
          = Some (Inr (map (\<lambda>j. string_of_runes (take C (drop (C * j) runes))) [0..<m]))"
  proof (cases "runes = []")
    case True
    with m0 a show ?thesis by (simp add: splitText_def simpleSplit_def runes_def)
  next
    case False
    with m(1) a C(2) show ?thesis by (simp add: splitText_def simpleSplit_def runes_def)
  qed
  have nonempty: "\<forall>j<m. take C (drop (C * j) runes) \<noteq> []"
    using m(3) C(1) by auto
  have cat: "concat (map (\<lambda>j. take C (drop (C * j) runes)) [0..<m]) = runes"
    using m(2) by (intro concat_windows) simp
  show "\<exists>m. splitText s chunkSize chunkOverlap
                = Some (Inr (map (\<lambda>j. string_of_runes (take (nat chunkSize) (drop (nat chunkSize * j) (runes_of s)))) [0..<m]))
         \<and> (\<forall>j<m. take (nat chunkSize) (drop (nat chunkSize * j) (runes_of s)) \<noteq> [])
         \<and> concat (map (\<lambda>j. take (nat chunkSize) (drop (nat chunkSize * j) (runes_of s))) [0..<m])
             = runes_of s"
    using run nonempty cat unfolding C_def runes_def by blast
next
  show "splitText [] chunkSize chunkOverlap = Some (Inr [])"
    by (simp add: splitText_def simpleSplit_def runes_of_def)
qed

theorem splitText_windows_witness:
  "''abc'' \<noteq> [] \<and> (0::int) < 2 \<and> (2::int) \<le> 5
   \<and> splitText ''abc'' 1000 100 = Some (Inr [''abc''])
   \<and> splitText ''abc'' 2 5 = Some (Inr [''ab'', ''c''])"
proof -
  have r: "runes_of ''abc'' = [97, 98, 99]"
    by (simp add: runes_of_def)
  have e: "string_of_runes [97, 98, 99] = ''abc''" "string_of_runes [97, 98] = ''ab''"
    "string_of_runes [99] = ''c''"
    by (simp_all add: string_of_runes_def EncodeRune_def) code_simp+
  have a: "splitText ''abc'' 1000 100 = Some (Inr [''abc''])"
    by (simp add: splitText_def splitText_loop.simps slice_def r e)
  have b: "splitText ''abc'' 2 5 = Some (Inr [''ab'', ''c''])"
    by (simp add: splitText_def simpleSplit_def simpleSplit_loop.simps slice_def r e)
  show ?thesis using splitText_windows[of "''abc''" 2 5] a b by simp
qed

section \<open>The retry policy of the consumer\<close>

text \<open>
  Claim C6.  For a delivered task (a message that unmarshals to a task): when processing
  fails and the counter store answers, the consumer increments \<open>kafka:attempts:<md5>\<close>,
  asks for a time to live of 24 hours (which the key then has, unless that call fails), and
  calls \<open>CommitMessages\<close> exactly when the incremented counter is at least 3; when the
  increment fails it makes no further call and commits nothing; when processing succeeds
  it deletes the counter (the key is gone unless that call fails) and calls
  \<open>CommitMessages\<close>.  A commit that does not fail records the offset.
\<close>

theorem consumer_retry_policy:
  assumes "msg_task m = Some task"
  shows "(ce_Process env task = Some err \<and> \<not> ce_incr_fault env \<longrightarrow>
            rd_values (cs_redis (handle_message env m st)) (attemptsKey task)
              = Some ((case rd_values (cs_redis st) (attemptsKey task) of None \<Rightarrow> 0 | Some n \<Rightarrow> n) + 1)
          \<and> (\<not> ce_expire_fault env \<longrightarrow>
                rd_ttl (cs_redis (handle_message env m st)) (attemptsKey task) = Some (24 * 60 * 60))
          \<and> cs_calls (handle_message env m st)
              = cs_calls st @ [Call_Incr (attemptsKey task), Call_Expire (attemptsKey task) (24 * 60 * 60)]
                 @ (if (case rd_values (cs_redis st) (attemptsKey task) of None \<Rightarrow> 0 | Some n \<Rightarrow> n) + 1 \<ge> 3
                    then [Call_CommitMessages (msg_offset m)] else [])
          \<and> (\<not> ce_commit_fault env \<longrightarrow>
                cs_committed (handle_message env m st)
                  = cs_committed st
                     @ (if (case rd_values (cs_redis st) (attemptsKey task) of None \<Rightarrow> 0 | Some n \<Rightarrow> n) + 1 \<ge> 3
                        then [msg_offset m] else [])))
       \<and> (ce_Process env task = Some err \<and> ce_incr_fault env \<longrightarrow>
            handle_message env m st = st\<lparr>cs_calls := cs_calls st @ [Call_Incr (attemptsKey task)]\<rparr>)
       \<and> (ce_Process env task = None \<longrightarrow>
            cs_calls (handle_message env m st)
              = cs_calls st @ [Call_Del (attemptsKey task), Call_CommitMessages (msg_offset m)]
          \<and> (\<not> ce_del_fault env \<longrightarrow>
                rd_values (cs_redis (handle_message env m st)) (attemptsKey task) = None
              \<and> rd_ttl (cs_redis (handle_message env m st)) (attemptsKey task) = None)
          \<and> (\<not> ce_commit_fault env \<longrightarrow>
                cs_committed (handle_message env m st) = cs_committed st @ [msg_offset m]))"
proof (intro conjI impI)
  assume a: "ce_Process env task = Some err \<and> \<not> ce_incr_fault env"
  let ?a = "(case rd_values (cs_redis st) (attemptsKey task) of None \<Rightarrow> 0 | Some n \<Rightarrow> n) + 1"
  show "rd_values (cs_redis (handle_message env m st)) (attemptsKey task) = Some ?a"
    using assms a
    by (simp add: handle_message_def redis_Incr_def redis_Expire_def CommitMessages_def Let_def)
  show "cs_calls (handle_message env m st)
              = cs_calls st @ [Call_Incr (attemptsKey task), Call_Expire (attemptsKey task) (24 * 60 * 60)]
                 @ (if ?a \<ge> 3 then [Call_CommitMessages (msg_offset m)] else [])"
    using assms a
    by (simp add: handle_message_def redis_Incr_def redis_Expire_def CommitMessages_def Let_def
        attempts_ttl_def)
  {
    assume "\<not> ce_expire_fault env"
    then show "rd_ttl (cs_redis (handle_message env m st)) (attemptsKey task) = Some (24 * 60 * 60)"
      using assms a
      by (simp add: handle_message_def redis_Incr_def redis_Expire_def CommitMessages_def Let_def
          attempts_ttl_def)
  }
  {
    assume "\<not> ce_commit_fault env"
    then show "cs_committed (handle_message env m st)
                  = cs_committed st @ (if ?a \<ge> 3 then [msg_offset m] else [])"
      using assms a
      by (simp add: handle_message_def redis_Incr_def redis_Expire_def CommitMessages_def Let_def)
  }
next
  assume "ce_Process env task = Some err \<and> ce_incr_fault env"
  then show "handle_message env m st = st\<lparr>cs_calls := cs_calls st @ [Call_Incr (attemptsKey task)]\<rparr>"
    using assms by (simp add: handle_message_def redis_Incr_def Let_def)
next
  assume a: "ce_Process env task = None"
  show "cs_calls (handle_message env m st)
              = cs_calls st @ [Call_Del (attemptsKey task), Call_CommitMessages (msg_offset m)]"
    using assms a by (simp add: handle_message_def redis_Del_def CommitMessages_def Let_def)
  {
    assume "\<not> ce_del_fault env"
    then show "rd_values (cs_redis (handle_message env m st)) (attemptsKey task) = None"
      and "rd_ttl (cs_redis (handle_message env m st)) (attemptsKey task) = None"
      using assms a by (simp_all add: handle_message_def redis_Del_def CommitMessages_def Let_def)
  }
  {
    assume "\<not> ce_commit_fault env"
    then show "cs_committed (handle_message env m st) = cs_committed st @ [msg_offset m]"
      using assms a by (simp add: handle_message_def redis_Del_def CommitMessages_def Let_def)
  }
qed


theorem consumer_retry_policy_witness:
  "msg_task \<lparr>msg_offset = 9,
       msg_task = Some \<lparr>task_FileMD5 = ''B'', task_ObjectUrl = ''u'', task_FileName = ''b.txt'',
                         task_UserID = 1, task_OrgTag = ''t'', task_IsPublic = False\<rparr>\<rparr>
     = Some \<lparr>task_FileMD5 = ''B'', task_ObjectUrl = ''u'', task_FileName = ''b.txt'',
             task_UserID = 1, task_OrgTag = ''t'', task_IsPublic = False\<rparr>
   \<and> rd_values (cs_redis (handle_message
        \<lparr>ce_Process = (\<lambda>t. Some ErrTika), ce_incr_fault = False, ce_expire_fault = False,
         ce_del_fault = False, ce_commit_fault = False\<rparr>
        \<lparr>msg_offset = 9,
         msg_task = Some \<lparr>task_FileMD5 = ''B'', task_ObjectUrl = ''u'', task_FileName = ''b.txt'',
                           task_UserID = 1, task_OrgTag = ''t'', task_IsPublic = False\<rparr>\<rparr>
        \<lparr>cs_redis = \<lparr>rd_values = [''kafka:attempts:B'' \<mapsto> 2],
                      rd_ttl = [''kafka:attempts:B'' \<mapsto> 86400]\<rparr>,
         cs_committed = [], cs_calls = []\<rparr>)) ''kafka:attempts:B'' = Some 3
   \<and> cs_committed (handle_message
        \<lparr>ce_Process = (\<lambda>t. Some ErrTika), ce_incr_fault = False, ce_expire_fault = False,
         ce_del_fault = False, ce_commit_fault = False\<rparr>
        \<lparr>msg_offset = 9,
         msg_task = Some \<lparr>task_FileMD5 = ''B'', task_ObjectUrl = ''u'', task_FileName = ''b.txt'',
                           task_UserID = 1, task_OrgTag = ''t'', task_IsPublic = False\<rparr>\<rparr>
        \<lparr>cs_redis = \<lparr>rd_values = [''kafka:attempts:B'' \<mapsto> 2],
                      rd_ttl = [''kafka:attempts:B'' \<mapsto> 86400]\<rparr>,
         cs_committed = [], cs_calls = []\<rparr>) = [9]
   \<and> cs_calls (handle_message
        \<lparr>ce_Process = (\<lambda>t. Some ErrTika), ce_incr_fault = False, ce_expire_fault = False,
         ce_del_fault = False, ce_commit_fault = False\<rparr>
        \<lparr>msg_offset = 9,
         msg_task = Some \<lparr>task_FileMD5 = ''B'', task_ObjectUrl = ''u'', task_FileName = ''b.txt'',
                           task_UserID = 1, task_OrgTag = ''t'', task_IsPublic = False\<rparr>\<rparr>
        \<lparr>cs_redis = \<lparr>rd_values = [''kafka:attempts:B'' \<mapsto> 2],
                      rd_ttl = [''kafka:attempts:B'' \<mapsto> 86400]\<rparr>,
         cs_committed = [], cs_calls = []\<rparr>)
     = [Call_Incr ''kafka:attempts:B'', Call_Expire ''kafka:attempts:B'' 86400, Call_CommitMessages 9]"
proof -
  let ?task = "\<lparr>task_FileMD5 = ''B'', task_ObjectUrl = ''u'', task_FileName = ''b.txt'',
                 task_UserID = 1, task_OrgTag = ''t'', task_IsPublic = False\<rparr>"
  let ?m = "\<lparr>msg_offset = 9, msg_task = Some ?task\<rparr>"
  let ?env = "\<lparr>ce_Process = (\<lambda>t. Some ErrTika), ce_incr_fault = False, ce_expire_fault = False,
         ce_del_fault = False, ce_commit_fault = False\<rparr>"
  let ?st = "\<lparr>cs_redis = \<lparr>rd_values = [''kafka:attempts:B'' \<mapsto> 2],
                      rd_ttl = [''kafka:attempts:B'' \<mapsto> 86400]\<rparr>,
         cs_committed = [], cs_calls = []\<rparr>"
  have t: "msg_task ?m = Some ?task" by simp
  have k: "attemptsKey ?task = ''kafka:attempts:B''" by (simp add: attemptsKey_def)
  from consumer_retry_policy[OF t, of ?env ErrTika ?st] k t
  show ?thesis by simp
qed

section \<open>Merging the parts of an upload\<close>

lemma find_map_status:
  assumes "find (\<lambda>r. fu_FileMD5 r = m \<and> fu_UserID r = u) rows = Some record"
  shows "find (\<lambda>r. fu_FileMD5 r = m \<and> fu_UserID r = u)
           (map (\<lambda>r. if fu_ID r = fu_ID record then r\<lparr>fu_Status := s\<rparr> else r) rows)
         = Some (record\<lparr>fu_Status := s\<rparr>)"
  using assms by (induction rows) (auto split: if_splits)

text \<open>
  Claim C5.  For an existing upload record whose progress bitmap can be read: when fewer
  parts are recorded than \<open>total_chunks\<close>, \<open>MergeChunks\<close> fails and leaves every store as
  it was (nothing is composed, the status is not changed, nothing is published).  When
  all parts are recorded and the object store and the status update succeed, it returns the
  URL; the merged object is the concatenation of the parts \<open>0..N-1\<close> in order, written by
  one server-side copy when \<open>N = 1\<close> and by one compose of the parts in order otherwise; the
  record's status is 1 (COMPLETE); and the task is on the queue exactly when publishing did
  not fail, so a failed publish changes neither the result nor the status.
\<close>

theorem MergeChunks_gate_and_commit:
  assumes "GetFileUploadRecord (me_lookup_fault env) fileMD5 userID w = Inr record"
    and "GetUploadedChunksFromRedis (me_redis_fault env) fileMD5 userID
           (calculateTotalChunks (fu_TotalSize record)) w = Inr uploaded"
  shows "(int (length uploaded) < calculateTotalChunks (fu_TotalSize record) \<longrightarrow>
            MergeChunks env fileMD5 fileName userID w
              = (w, Inl (ErrIncomplete (calculateTotalChunks (fu_TotalSize record))
                                       (int (length uploaded)))))
       \<and> (\<not> int (length uploaded) < calculateTotalChunks (fu_TotalSize record)
          \<and> 0 < calculateTotalChunks (fu_TotalSize record)
          \<and> \<not> me_object_store_fault env
          \<and> \<not> list_ex (\<lambda>s. w_objects w s = None)
                 (map (\<lambda>i. chunkObject fileMD5 (int i))
                      [0..<nat (calculateTotalChunks (fu_TotalSize record))])
          \<and> \<not> me_update_fault env \<longrightarrow>
            snd (MergeChunks env fileMD5 fileName userID w) = Inr (me_presigned_url env)
          \<and> w_objects (fst (MergeChunks env fileMD5 fileName userID w))
               = (w_objects w)(mergedObject fileName \<mapsto>
                    concat (map (\<lambda>i. the (w_objects w (chunkObject fileMD5 (int i))))
                                [0..<nat (calculateTotalChunks (fu_TotalSize record))]))
          \<and> w_store_calls (fst (MergeChunks env fileMD5 fileName userID w))
               = w_store_calls w @
                  [if calculateTotalChunks (fu_TotalSize record) = 1
                   then Store_Copy (mergedObject fileName) (chunkObject fileMD5 0)
                   else Store_Compose (mergedObject fileName)
                          (map (\<lambda>i. chunkObject fileMD5 (int i))
                               [0..<nat (calculateTotalChunks (fu_TotalSize record))])]
          \<and> GetFileUploadRecord False fileMD5 userID (fst (MergeChunks env fileMD5 fileName userID w))
               = Inr (record\<lparr>fu_Status := 1\<rparr>)
          \<and> w_kafka (fst (MergeChunks env fileMD5 fileName userID w))
               = (if me_publish_fault env then w_kafka w
                  else w_kafka w @ [\<lparr>task_FileMD5 = fileMD5,
                                      task_ObjectUrl = me_presigned_url env,
                                      task_FileName = fileName,
                                      task_UserID = userID,
                                      task_OrgTag = fu_OrgTag record,
                                      task_IsPublic = fu_IsPublic record\<rparr>]))"
proof (intro conjI impI)
  assume "int (length uploaded) < calculateTotalChunks (fu_TotalSize record)"
  then show "MergeChunks env fileMD5 fileName userID w
              = (w, Inl (ErrIncomplete (calculateTotalChunks (fu_TotalSize record))
                                       (int (length uploaded))))"
    using assms by (simp add: MergeChunks_def Let_def)
next
  let ?total = "calculateTotalChunks (fu_TotalSize record)"
  let ?srcs = "map (\<lambda>i. chunkObject fileMD5 (int i)) [0..<nat ?total]"
  let ?content = "concat (map (\<lambda>i. the (w_objects w (chunkObject fileMD5 (int i)))) [0..<nat ?total])"
  assume a: "\<not> int (length uploaded) < ?total \<and> 0 < ?total \<and> \<not> me_object_store_fault env
          \<and> \<not> list_ex (\<lambda>s. w_objects w s = None) ?srcs \<and> \<not> me_update_fault env"
  define w1 where "w1 = w\<lparr>w_objects := (w_objects w)(mergedObject fileName \<mapsto> ?content),
        w_store_calls := w_store_calls w @
          [if ?total = 1 then Store_Copy (mergedObject fileName) (chunkObject fileMD5 0)
           else Store_Compose (mergedObject fileName) ?srcs]\<rparr>"
  have merged: "(if ?total = 1
                 then CopyObject (me_object_store_fault env) (mergedObject fileName) (chunkObject fileMD5 0) w
                 else ComposeObject (me_object_store_fault env) (mergedObject fileName) ?srcs w) = Inr w1"
  proof (cases "?total = 1")
    case True
    with a have "w_objects w (chunkObject fileMD5 0) \<noteq> None" by simp
    then obtain c where c: "w_objects w (chunkObject fileMD5 0) = Some c" by blast
    with True a show ?thesis by (simp add: CopyObject_def w1_def)
  next
    case False
    with a have "?srcs \<noteq> []" by auto
    with False a show ?thesis by (simp add: ComposeObject_def w1_def comp_def)
  qed
  define w2 where "w2 = w1\<lparr>w_file_upload :=
        map (\<lambda>r. if fu_ID r = fu_ID record then r\<lparr>fu_Status := 1\<rparr> else r) (w_file_upload w1)\<rparr>"
  have upd: "UpdateFileUploadStatus (me_update_fault env) (fu_ID record) 1 w1 = Inr w2"
    using a by (simp add: UpdateFileUploadStatus_def w2_def)
  let ?task = "\<lparr>task_FileMD5 = fileMD5, task_ObjectUrl = me_presigned_url env,
                 task_FileName = fileName, task_UserID = userID,
                 task_OrgTag = fu_OrgTag record, task_IsPublic = fu_IsPublic record\<rparr>"
  have run: "MergeChunks env fileMD5 fileName userID w
             = (ProduceFileTask (me_publish_fault env) ?task w2, Inr (me_presigned_url env))"
    using assms a merged upd by (simp add: MergeChunks_def Let_def)
  show "snd (MergeChunks env fileMD5 fileName userID w) = Inr (me_presigned_url env)"
    by (simp add: run)
  show "w_objects (fst (MergeChunks env fileMD5 fileName userID w))
               = (w_objects w)(mergedObject fileName \<mapsto> ?content)"
    by (simp add: run ProduceFileTask_def w2_def w1_def)
  show "w_store_calls (fst (MergeChunks env fileMD5 fileName userID w))
               = w_store_calls w @
                  [if ?total = 1 then Store_Copy (mergedObject fileName) (chunkObject fileMD5 0)
                   else Store_Compose (mergedObject fileName) ?srcs]"
    by (simp add: run ProduceFileTask_def w2_def w1_def)
  have "find (\<lambda>r. fu_FileMD5 r = fileMD5 \<and> fu_UserID r = userID) (w_file_upload w) = Some record"
    using assms(1) by (auto simp: GetFileUploadRecord_def split: if_splits option.splits)
  from find_map_status[OF this, of 1]
  show "GetFileUploadRecord False fileMD5 userID (fst (MergeChunks env fileMD5 fileName userID w))
               = Inr (record\<lparr>fu_Status := 1\<rparr>)"
    by (simp add: run ProduceFileTask_def w2_def w1_def GetFileUploadRecord_def)
  show "w_kafka (fst (MergeChunks env fileMD5 fileName userID w))
               = (if me_publish_fault env then w_kafka w else w_kafka w @ [?task])"
    by (simp add: run ProduceFileTask_def w2_def w1_def)
qed


theorem MergeChunks_gate_and_commit_witness:
  "GetFileUploadRecord (me_lookup_fault ex_merge_env) ''m'' 7 ex_upload_world = Inr ex_upload
   \<and> GetUploadedChunksFromRedis (me_redis_fault ex_merge_env) ''m'' 7
        (calculateTotalChunks (fu_TotalSize ex_upload)) ex_upload_world = Inr [0, 1]
   \<and> calculateTotalChunks (fu_TotalSize ex_upload) = 2
   \<and> snd (MergeChunks ex_merge_env ''m'' ''f.txt'' 7 ex_upload_world) = Inr ''url''
   \<and> w_objects (fst (MergeChunks ex_merge_env ''m'' ''f.txt'' 7 ex_upload_world)) ''merged/f.txt''
       = Some ''abcd''
   \<and> GetFileUploadRecord False ''m'' 7 (fst (MergeChunks ex_merge_env ''m'' ''f.txt'' 7 ex_upload_world))
       = Inr (ex_upload\<lparr>fu_Status := 1\<rparr>)
   \<and> w_kafka (fst (MergeChunks ex_merge_env ''m'' ''f.txt'' 7 ex_upload_world)) = []"
proof -
  have tc': "calculateTotalChunks 6291456 = 2"
    by (simp add: calculateTotalChunks_def DefaultChunkSize_def)
  then have tc: "calculateTotalChunks (fu_TotalSize ex_upload) = 2" by simp
  have rec: "GetFileUploadRecord (me_lookup_fault ex_merge_env) ''m'' 7 ex_upload_world = Inr ex_upload"
    by (simp add: GetFileUploadRecord_def)
  have key: "getRedisUploadKey ''m'' 7 = ''upload:7:m''"
    by (simp add: getRedisUploadKey_def digits_small char_eval)
  have bits: "filter (chunk_bit_set [0xC0]) [0..<2] = [0, 1]"
    by (simp add: chunk_bit_set_def upt_conv_Cons drop_bit_eq_div)
  have up: "GetUploadedChunksFromRedis (me_redis_fault ex_merge_env) ''m'' 7
        (calculateTotalChunks (fu_TotalSize ex_upload)) ex_upload_world = Inr [0, 1]"
    using bits by (simp add: tc' GetUploadedChunksFromRedis_def key)
  have names: "chunkObject ''m'' 0 = ''chunks/m/0''" "chunkObject ''m'' 1 = ''chunks/m/1''"
    by (simp_all add: chunkObject_def Itoa_def digits_small char_eval)
  have srcs: "map (\<lambda>i. chunkObject ''m'' (int i)) [0..<2] = [''chunks/m/0'', ''chunks/m/1'']"
    using names by (simp add: upt_conv_Cons)
  have mo: "mergedObject ''f.txt'' = ''merged/f.txt''" by (simp add: mergedObject_def)
  note th = MergeChunks_gate_and_commit[OF rec up, of "''f.txt''", unfolded tc]
  have pre: "\<not> int (length [0::int, 1]) < 2 \<and> (0::int) < 2 \<and> \<not> me_object_store_fault ex_merge_env
      \<and> \<not> list_ex (\<lambda>s. w_objects ex_upload_world s = None) (map (\<lambda>i. chunkObject ''m'' (int i)) [0..<nat 2])
      \<and> \<not> me_update_fault ex_merge_env"
    by (simp add: srcs)
  from th pre have
    r1: "snd (MergeChunks ex_merge_env ''m'' ''f.txt'' 7 ex_upload_world) = Inr (me_presigned_url ex_merge_env)"
    and r2: "w_objects (fst (MergeChunks ex_merge_env ''m'' ''f.txt'' 7 ex_upload_world))
       = (w_objects ex_upload_world)(mergedObject ''f.txt'' \<mapsto>
            concat (map (\<lambda>i. the (w_objects ex_upload_world (chunkObject ''m'' (int i)))) [0..<nat 2]))"
    and r3: "GetFileUploadRecord False ''m'' 7 (fst (MergeChunks ex_merge_env ''m'' ''f.txt'' 7 ex_upload_world))
       = Inr (ex_upload\<lparr>fu_Status := 1\<rparr>)"
    and r4: "w_kafka (fst (MergeChunks ex_merge_env ''m'' ''f.txt'' 7 ex_upload_world))
       = (if me_publish_fault ex_merge_env then w_kafka ex_upload_world
          else w_kafka ex_upload_world @ [\<lparr>task_FileMD5 = ''m'',
                                      task_ObjectUrl = me_presigned_url ex_merge_env,
                                      task_FileName = ''f.txt'',
                                      task_UserID = 7,
                                      task_OrgTag = fu_OrgTag ex_upload,
                                      task_IsPublic = fu_IsPublic ex_upload\<rparr>])"
    by blast+
  have c: "concat (map (\<lambda>i. the (w_objects ex_upload_world (chunkObject ''m'' (int i)))) [0..<nat 2]) = ''abcd''"
    using names by (simp add: upt_conv_Cons)
  have o: "w_objects (fst (MergeChunks ex_merge_env ''m'' ''f.txt'' 7 ex_upload_world)) ''merged/f.txt''
       = Some ''abcd''"
    by (simp only: r2 c mo) simp
  from rec up tc r1 o r3 r4 show ?thesis by simp
qed

section \<open>Deleting a document\<close>

lemma rec_found:
  assumes "GetFileUploadRecord fault fileMD5 userID w = Inr rec"
  shows "rec \<in> set (w_file_upload w) \<and> fu_FileMD5 rec = fileMD5 \<and> fu_UserID rec = userID"
proof -
  from assms have "find (\<lambda>r. fu_FileMD5 r = fileMD5 \<and> fu_UserID r = userID) (w_file_upload w) = Some rec"
    by (auto simp: GetFileUploadRecord_def split: if_splits option.splits)
  then show ?thesis by (auto simp: find_Some_iff)
qed

text \<open>
  Claim C7 (as amended).  \<open>DeleteDocument\<close> never changes the index: entries whose
  \<open>file_md5\<close> is the deleted document's stay.  The call succeeds only if the upload table
  holds a record for \<open>md5\<close> whose owner is the caller or the caller has role ADMIN, and
  only if none of the three row deletions failed.  A caller who neither owns a record for
  \<open>md5\<close> nor has role ADMIN is refused and nothing is changed.  When the caller owns an
  upload record for \<open>md5\<close> and the three row deletions do not fail, the call succeeds,
  the \<open>ChunkInfo\<close> and \<open>DocumentVector\<close> rows of \<open>md5\<close> and the caller's
  \<open>FileUpload\<close> row are gone, and so is the merged object unless its removal failed
  (that error is ignored).
\<close>

theorem DeleteDocument_access_and_removal:
  "w_es_index (fst (DeleteDocument env fileMD5 user w)) = w_es_index w
   \<and> (snd (DeleteDocument env fileMD5 user w) = Inr () \<longrightarrow>
        (\<exists>r \<in> set (w_file_upload w).
            fu_FileMD5 r = fileMD5 \<and> (fu_UserID r = uID user \<or> uRole user = ''ADMIN''))
      \<and> \<not> de_chunks_fault env \<and> \<not> de_vectors_fault env \<and> \<not> de_upload_fault env)
   \<and> (uRole user \<noteq> ''ADMIN''
        \<and> (\<forall>r \<in> set (w_file_upload w). fu_FileMD5 r = fileMD5 \<longrightarrow> fu_UserID r \<noteq> uID user) \<longrightarrow>
        DeleteDocument env fileMD5 user w = (w, Inl ErrNotFoundOrNotOwner))
   \<and> (GetFileUploadRecord (de_lookup_fault env) fileMD5 (uID user) w = Inr record
        \<and> \<not> de_chunks_fault env \<and> \<not> de_vectors_fault env \<and> \<not> de_upload_fault env \<longrightarrow>
        snd (DeleteDocument env fileMD5 user w) = Inr ()
      \<and> w_chunk_info (fst (DeleteDocument env fileMD5 user w))
           = filter (\<lambda>c. ci_FileMD5 c \<noteq> fileMD5) (w_chunk_info w)
      \<and> w_document_vectors (fst (DeleteDocument env fileMD5 user w))
           = filter (\<lambda>v. dv_FileMD5 v \<noteq> fileMD5) (w_document_vectors w)
      \<and> w_file_upload (fst (DeleteDocument env fileMD5 user w))
           = filter (\<lambda>r. \<not> (fu_FileMD5 r = fileMD5 \<and> fu_UserID r = uID user)) (w_file_upload w)
      \<and> (\<not> de_remove_fault env \<longrightarrow>
            w_objects (fst (DeleteDocument env fileMD5 user w)) (''merged/'' @ fu_FileName record) = None))"
proof (intro conjI impI)
  show "w_es_index (fst (DeleteDocument env fileMD5 user w)) = w_es_index w"
    by (simp add: DeleteDocument_def DeleteFileUploadRecord_def RemoveObject_def Let_def
        split: sum.splits)
next
  assume ok: "snd (DeleteDocument env fileMD5 user w) = Inr ()"
  then obtain rec where rec: "GetFileUploadRecord (de_lookup_fault env) fileMD5 (uID user) w = Inr rec"
    by (cases "GetFileUploadRecord (de_lookup_fault env) fileMD5 (uID user) w")
       (auto simp: DeleteDocument_def)
  from rec_found[OF rec] have own: "rec \<in> set (w_file_upload w)" "fu_FileMD5 rec = fileMD5"
    "fu_UserID rec = uID user" by blast+
  then show "\<exists>r \<in> set (w_file_upload w).
            fu_FileMD5 r = fileMD5 \<and> (fu_UserID r = uID user \<or> uRole user = ''ADMIN'')"
    by blast
  from ok rec own(3) have "\<not> (de_chunks_fault env \<or> de_vectors_fault env \<or> de_upload_fault env)"
    by (auto simp: DeleteDocument_def DeleteFileUploadRecord_def Let_def split: if_splits)
  then show "\<not> de_chunks_fault env" "\<not> de_vectors_fault env" "\<not> de_upload_fault env"
    by blast+
next
  assume "uRole user \<noteq> ''ADMIN''
        \<and> (\<forall>r \<in> set (w_file_upload w). fu_FileMD5 r = fileMD5 \<longrightarrow> fu_UserID r \<noteq> uID user)"
  then have "\<forall>rec. GetFileUploadRecord (de_lookup_fault env) fileMD5 (uID user) w \<noteq> Inr rec"
    using rec_found by blast
  then show "DeleteDocument env fileMD5 user w = (w, Inl ErrNotFoundOrNotOwner)"
    by (cases "GetFileUploadRecord (de_lookup_fault env) fileMD5 (uID user) w")
       (auto simp: DeleteDocument_def)
next
  assume a: "GetFileUploadRecord (de_lookup_fault env) fileMD5 (uID user) w = Inr record
        \<and> \<not> de_chunks_fault env \<and> \<not> de_vectors_fault env \<and> \<not> de_upload_fault env"
  then have own: "fu_UserID record = uID user"
    using rec_found by blast
  show "snd (DeleteDocument env fileMD5 user w) = Inr ()"
    using a own by (simp add: DeleteDocument_def DeleteFileUploadRecord_def Let_def)
  show "w_chunk_info (fst (DeleteDocument env fileMD5 user w))
           = filter (\<lambda>c. ci_FileMD5 c \<noteq> fileMD5) (w_chunk_info w)"
    using a own by (simp add: DeleteDocument_def DeleteFileUploadRecord_def RemoveObject_def Let_def)
  show "w_document_vectors (fst (DeleteDocument env fileMD5 user w))
           = filter (\<lambda>v. dv_FileMD5 v \<noteq> fileMD5) (w_document_vectors w)"
    using a own by (simp add: DeleteDocument_def DeleteFileUploadRecord_def RemoveObject_def Let_def)
  show "w_file_upload (fst (DeleteDocument env fileMD5 user w))
           = filter (\<lambda>r. \<not> (fu_FileMD5 r = fileMD5 \<and> fu_UserID r = uID user)) (w_file_upload w)"
    using a own by (simp add: DeleteDocument_def DeleteFileUploadRecord_def RemoveObject_def Let_def)
  {
    assume "\<not> de_remove_fault env"
    then show "w_objects (fst (DeleteDocument env fileMD5 user w)) (''merged/'' @ fu_FileName record) = None"
      using a own by (simp add: DeleteDocument_def DeleteFileUploadRecord_def RemoveObject_def Let_def)
  }
qed

theorem DeleteDocument_access_and_removal_witness:
  "GetFileUploadRecord (de_lookup_fault ex_delete_env) ''m'' (uID ex_owner) ex_document_world
     = Inr (ex_upload\<lparr>fu_Status := 1\<rparr>)
   \<and> snd (DeleteDocument ex_delete_env ''m'' ex_owner ex_document_world) = Inr ()
   \<and> w_chunk_info (fst (DeleteDocument ex_delete_env ''m'' ex_owner ex_document_world)) = []
   \<and> w_document_vectors (fst (DeleteDocument ex_delete_env ''m'' ex_owner ex_document_world)) = []
   \<and> w_file_upload (fst (DeleteDocument ex_delete_env ''m'' ex_owner ex_document_world)) = []
   \<and> w_objects (fst (DeleteDocument ex_delete_env ''m'' ex_owner ex_document_world)) ''merged/f.txt'' = None
   \<and> uRole ex_stranger \<noteq> ''ADMIN''
   \<and> uID ex_stranger \<noteq> fu_UserID (ex_upload\<lparr>fu_Status := 1\<rparr>)
   \<and> DeleteDocument ex_delete_env ''m'' ex_stranger ex_document_world
       = (ex_document_world, Inl ErrNotFoundOrNotOwner)"
proof -
  have rec: "GetFileUploadRecord (de_lookup_fault ex_delete_env) ''m'' (uID ex_owner) ex_document_world
     = Inr (ex_upload\<lparr>fu_Status := 1\<rparr>)"
    by (simp add: GetFileUploadRecord_def)
  from DeleteDocument_access_and_removal[of ex_delete_env "''m''" ex_owner ex_document_world
      "ex_upload\<lparr>fu_Status := 1\<rparr>"] rec
  have owner: "snd (DeleteDocument ex_delete_env ''m'' ex_owner ex_document_world) = Inr ()
   \<and> w_chunk_info (fst (DeleteDocument ex_delete_env ''m'' ex_owner ex_document_world)) = []
   \<and> w_document_vectors (fst (DeleteDocument ex_delete_env ''m'' ex_owner ex_document_world)) = []
   \<and> w_file_upload (fst (DeleteDocument ex_delete_env ''m'' ex_owner ex_document_world)) = []
   \<and> w_objects (fst (DeleteDocument ex_delete_env ''m'' ex_owner ex_document_world)) ''merged/f.txt'' = None"
    by simp
  from DeleteDocument_access_and_removal[of ex_delete_env "''m''" ex_stranger ex_document_world
      "ex_upload\<lparr>fu_Status := 1\<rparr>"]
  have stranger: "DeleteDocument ex_delete_env ''m'' ex_stranger ex_document_world
       = (ex_document_world, Inl ErrNotFoundOrNotOwner)"
    by simp
  from rec owner stranger show ?thesis by simp
qed

text \<open>
  The claim as first stated fails at a concrete store: after the owner's successful
  deletion the index still holds the entry \<open>m_0\<close> of the deleted file.  At the same
  store a caller with role ADMIN who does not own the record is refused, because the
  record is looked up under the caller's own id.
\<close>

theorem DeleteDocument_counterexample:
  "snd (DeleteDocument ex_delete_env ''m'' ex_owner ex_document_world) = Inr ()
   \<and> w_es_index (fst (DeleteDocument ex_delete_env ''m'' ex_owner ex_document_world)) ''m_0'' = Some ex_doc
   \<and> es_FileMD5 ex_doc = ''m''
   \<and> uRole ex_admin = ''ADMIN''
   \<and> DeleteDocument ex_delete_env ''m'' ex_admin ex_document_world
       = (ex_document_world, Inl ErrNotFoundOrNotOwner)"
  by (simp add: DeleteDocument_def GetFileUploadRecord_def DeleteFileUploadRecord_def
      RemoveObject_def Let_def)

section \<open>Re-processing a file\<close>

subsection \<open>Decimal formatting is injective\<close>

lemma digits_value_snoc: "digits_value (s @ [c]) = 10 * digits_value s + (of_char c - 48)"
  by (simp add: digits_value_def)

lemma of_char_digit: "d < 10 \<Longrightarrow> (of_char (char_of (48 + d :: nat)) :: nat) = 48 + d"
  by simp

lemma digits_value_digits: "digits_value (digits n) = n"
proof (induction n rule: digits.induct)
  case (1 n)
  show ?case
  proof (cases "n < 10")
    case True
    then have "digits n = [char_of (48 + n)]" by (simp add: digits.simps)
    then show ?thesis using True by (simp add: digits_value_def)
  next
    case False
    then have "digits n = digits (n div 10) @ [char_of (48 + n mod 10)]"
      by (subst digits.simps) simp
    then have "digits_value (digits n) = 10 * digits_value (digits (n div 10)) + n mod 10"
      by (simp add: digits_value_snoc)
    with 1 False show ?thesis by simp
  qed
qed

lemma digits_inj: "digits a = digits b \<Longrightarrow> a = b"
  by (metis digits_value_digits)

lemma vector_id_inj: "vector_id m (int a) = vector_id m (int b) \<Longrightarrow> a = b"
  by (simp add: vector_id_def Itoa_def digits_inj)


subsection \<open>The indexing loop\<close>

lemma embed_and_index_success:
  assumes "embed_and_index env vs w = (w', Inr ())"
    and "distinct (map (\<lambda>v. vector_id (dv_FileMD5 v) (dv_ChunkID v)) vs)"
  shows "(\<forall>v \<in> set vs. \<exists>vec. pe_CreateEmbedding env (dv_TextContent v) = Some vec
            \<and> w_es_index w' (vector_id (dv_FileMD5 v) (dv_ChunkID v)) = Some (to_EsDocument env v vec))
       \<and> (\<forall>k. k \<notin> (\<lambda>v. vector_id (dv_FileMD5 v) (dv_ChunkID v)) ` set vs \<longrightarrow> w_es_index w' k = w_es_index w k)
       \<and> w' = w\<lparr>w_es_index := w_es_index w'\<rparr>"
  using assms
proof (induction vs arbitrary: w)
  case Nil
  then show ?case by simp
next
  case (Cons v rest)
  let ?id = "\<lambda>v. vector_id (dv_FileMD5 v) (dv_ChunkID v)"
  from Cons.prems(1) obtain vec where vec: "pe_CreateEmbedding env (dv_TextContent v) = Some vec"
    by (auto split: option.splits)
  let ?doc = "to_EsDocument env v vec"
  have idd: "es_VectorID ?doc = ?id v" by (simp add: to_EsDocument_def)
  from Cons.prems(1) vec have nf: "\<not> pe_index_fault env (es_VectorID ?doc)"
    by (auto simp: IndexDocument_def Let_def split: if_splits)
  define w1 where "w1 = w\<lparr>w_es_index := (w_es_index w)(?id v \<mapsto> ?doc)\<rparr>"
  have ix: "IndexDocument (pe_index_fault env (es_VectorID ?doc)) ?doc w = Inr w1"
    using nf idd by (simp add: IndexDocument_def w1_def)
  have rest: "embed_and_index env rest w1 = (w', Inr ())"
    using Cons.prems(1) vec ix by (simp add: Let_def)
  have d: "distinct (map ?id rest)" and notin: "?id v \<notin> ?id ` set rest"
    using Cons.prems(2) by auto
  from Cons.IH[OF rest d] have
    ih1: "\<forall>v \<in> set rest. \<exists>vec. pe_CreateEmbedding env (dv_TextContent v) = Some vec
            \<and> w_es_index w' (?id v) = Some (to_EsDocument env v vec)"
    and ih2: "\<forall>k. k \<notin> ?id ` set rest \<longrightarrow> w_es_index w' k = w_es_index w1 k"
    and ih3: "w' = w1\<lparr>w_es_index := w_es_index w'\<rparr>"
    by blast+
  have v: "w_es_index w' (?id v) = Some ?doc"
    using ih2 notin by (simp add: w1_def)
  have a: "\<forall>x \<in> set (v # rest). \<exists>vec. pe_CreateEmbedding env (dv_TextContent x) = Some vec
            \<and> w_es_index w' (?id x) = Some (to_EsDocument env x vec)"
    using ih1 v vec by auto
  have b: "\<forall>k. k \<notin> ?id ` set (v # rest) \<longrightarrow> w_es_index w' k = w_es_index w k"
    using ih2 by (auto simp: w1_def)
  have c: "w' = w\<lparr>w_es_index := w_es_index w'\<rparr>"
    using ih3 by (simp add: w1_def)
  from a b c show ?case by blast
qed

subsection \<open>The rows written by one run\<close>

lemma enumerate_map_nth:
  "map f (enumerate 0 xs) = map (\<lambda>i. f (i, xs ! i)) [0..<length xs]"
  by (rule nth_equalityI) (simp_all add: nth_enumerate_eq)

lemma new_vectors_props:
  "length (new_vectors task chunks) = length chunks"
  "map dv_ChunkID (new_vectors task chunks) = map int [0..<length chunks]"
  "map dv_TextContent (new_vectors task chunks) = chunks"
  "\<forall>v \<in> set (new_vectors task chunks). dv_FileMD5 v = task_FileMD5 task"
  by (simp_all add: new_vectors_def enumerate_map_nth map_nth comp_def)


lemma assign_ids_fields:
  "map dv_ChunkID (map (\<lambda>(i, v). v\<lparr>dv_VectorID := f i\<rparr>) (enumerate 0 xs)) = map dv_ChunkID xs"
  "map dv_TextContent (map (\<lambda>(i, v). v\<lparr>dv_VectorID := f i\<rparr>) (enumerate 0 xs)) = map dv_TextContent xs"
  "map dv_FileMD5 (map (\<lambda>(i, v). v\<lparr>dv_VectorID := f i\<rparr>) (enumerate 0 xs)) = map dv_FileMD5 xs"
  by (rule nth_equalityI; simp add: nth_enumerate_eq)+

lemma filter_all_md5:
  assumes "\<forall>v \<in> set xs. dv_FileMD5 v = m"
  shows "filter (\<lambda>v. dv_FileMD5 v = m) (filter (\<lambda>v. dv_FileMD5 v \<noteq> m) old @ xs) = xs"
  using assms by (simp add: filter_id_conv) 

lemma Process_success_rows:
  assumes run: "Process env task w = Some (w', Inr ())"
    and del: "\<not> pe_delete_fault env"
  shows "\<exists>content textContent chunks.
           w_objects w (''merged/'' @ task_FileName task) = Some content
         \<and> pe_ExtractText env content (task_FileName task) = Inr textContent
         \<and> splitText textContent 1000 100 = Some (Inr chunks) \<and> chunks \<noteq> []
         \<and> map dv_ChunkID (rows_for (task_FileMD5 task) w') = map int [0..<length chunks]
         \<and> map dv_TextContent (rows_for (task_FileMD5 task) w') = chunks
         \<and> (\<forall>v \<in> set (rows_for (task_FileMD5 task) w').
               \<exists>vec. w_es_index w' (vector_id (task_FileMD5 task) (dv_ChunkID v))
                        = Some (to_EsDocument env v vec))
         \<and> w_objects w' = w_objects w"
proof -
  let ?m = "task_FileMD5 task"
  from run obtain content where content: "download env (''merged/'' @ task_FileName task) w = Inr content"
    by (cases "download env (''merged/'' @ task_FileName task) w") (auto simp: Process_def)
  then have obj: "w_objects w (''merged/'' @ task_FileName task) = Some content"
    by (auto simp: download_def split: if_splits option.splits)
  from run content have ne: "length content \<noteq> 0"
    by (auto simp: Process_def split: if_splits)
  from run content ne obtain textContent where
    tx: "pe_ExtractText env content (task_FileName task) = Inr textContent"
    by (cases "pe_ExtractText env content (task_FileName task)") (auto simp: Process_def)
  from run content ne tx have tne: "textContent \<noteq> []"
    by (auto simp: Process_def split: if_splits)
  from run content ne tx tne obtain chunks where
    ch: "splitText textContent 1000 100 = Some (Inr chunks)"
    by (cases "splitText textContent 1000 100")
       (auto simp: Process_def split: sum.splits)
  from run content ne tx tne ch have cne: "chunks \<noteq> []"
    by (auto simp: Process_def split: if_splits)
  define w1 where "w1 = w\<lparr>w_document_vectors := filter (\<lambda>v. dv_FileMD5 v \<noteq> ?m) (w_document_vectors w)\<rparr>"
  have d1: "fst (DeleteByFileMD5 (pe_delete_fault env) ?m w) = w1"
    using del by (simp add: DeleteByFileMD5_def w1_def)
  let ?nv = "new_vectors task chunks"
  have nvne: "length ?nv \<noteq> 0" using cne by (simp add: new_vectors_props(1))
  from run content ne tx tne ch cne d1 obtain w2 where
    bc: "BatchCreate (pe_batch_fault env) ?nv w1 = Inr w2"
    by (cases "BatchCreate (pe_batch_fault env) ?nv w1") (auto simp: Process_def Let_def)
  let ?saved = "map (\<lambda>(i, v). v\<lparr>dv_VectorID := w_vector_seq w1 + i + 1\<rparr>) (enumerate 0 ?nv)"
  from bc nvne have w2: "w_document_vectors w2 = w_document_vectors w1 @ ?saved"
    and w2o: "w_objects w2 = w_objects w1"
    by (auto simp: BatchCreate_def split: if_splits)
  from run content ne tx tne ch cne d1 bc obtain saved where
    fd: "FindByFileMD5 (pe_find_fault env) ?m w2 = Inr saved"
    by (cases "FindByFileMD5 (pe_find_fault env) ?m w2") (auto simp: Process_def Let_def)
  have allm: "\<forall>v \<in> set ?saved. dv_FileMD5 v = ?m"
  proof -
    have "map dv_FileMD5 ?saved = map dv_FileMD5 ?nv" by (rule assign_ids_fields(3))
    moreover have "\<forall>x \<in> set (map dv_FileMD5 ?nv). x = ?m"
      using new_vectors_props(4)[of task chunks] by auto
    ultimately have "\<forall>x \<in> set (map dv_FileMD5 ?saved). x = ?m" by simp
    then show ?thesis by auto
  qed
  have w1v: "w_document_vectors w1 = filter (\<lambda>v. dv_FileMD5 v \<noteq> ?m) (w_document_vectors w)"
    by (simp add: w1_def)
  have rows2: "rows_for ?m w2 = ?saved"
    unfolding rows_for_def w2 w1v by (rule filter_all_md5[OF allm])
  from fd have saved: "saved = ?saved"
    using rows2 by (auto simp: FindByFileMD5_def rows_for_def split: if_splits)
  from run content ne tx tne ch cne d1 bc fd have ei: "embed_and_index env saved w2 = (w', Inr ())"
    by (simp add: Process_def Let_def)
  have cid: "map dv_ChunkID saved = map int [0..<length chunks]"
    using saved assign_ids_fields(1)[of _ ?nv] new_vectors_props(2)[of task chunks] by simp
  have ctx: "map dv_TextContent saved = chunks"
    using saved assign_ids_fields(2)[of _ ?nv] new_vectors_props(3)[of task chunks] by simp
  have smd5: "\<forall>v \<in> set saved. dv_FileMD5 v = ?m" using allm saved by simp
  have ids: "map (\<lambda>v. vector_id (dv_FileMD5 v) (dv_ChunkID v)) saved
             = map (\<lambda>i. vector_id ?m (int i)) [0..<length chunks]"
  proof -
    have "map (\<lambda>v. vector_id (dv_FileMD5 v) (dv_ChunkID v)) saved
          = map (\<lambda>v. vector_id ?m (dv_ChunkID v)) saved"
      using smd5 by (intro map_cong) auto
    also have "\<dots> = map (vector_id ?m) (map dv_ChunkID saved)" by (simp add: comp_def)
    also have "\<dots> = map (\<lambda>i. vector_id ?m (int i)) [0..<length chunks]"
      by (simp add: cid comp_def)
    finally show ?thesis .
  qed
  have dist: "distinct (map (\<lambda>v. vector_id (dv_FileMD5 v) (dv_ChunkID v)) saved)"
    unfolding ids by (auto simp: distinct_map inj_on_def dest: vector_id_inj)
  from embed_and_index_success[OF ei dist] have
    ix: "\<forall>v \<in> set saved. \<exists>vec. pe_CreateEmbedding env (dv_TextContent v) = Some vec
            \<and> w_es_index w' (vector_id (dv_FileMD5 v) (dv_ChunkID v)) = Some (to_EsDocument env v vec)"
    and same: "w' = w2\<lparr>w_es_index := w_es_index w'\<rparr>"
    by blast+
  have "w_document_vectors w' = w_document_vectors w2" "w_objects w' = w_objects w2"
    by (subst same, simp)+
  then have rows': "rows_for ?m w' = saved" and obj': "w_objects w' = w_objects w"
    using rows2 saved w2o by (simp_all add: rows_for_def w1_def)
  have ix': "\<forall>v \<in> set (rows_for ?m w').
               \<exists>vec. w_es_index w' (vector_id ?m (dv_ChunkID v)) = Some (to_EsDocument env v vec)"
    using ix smd5 rows' by auto
  from obj tx ch cne cid ctx ix' obj' rows' show ?thesis by auto
qed


lemma to_EsDocument_fields:
  "es_VectorID (to_EsDocument env v vec) = vector_id (dv_FileMD5 v) (dv_ChunkID v)"
  "es_TextContent (to_EsDocument env v vec) = dv_TextContent v"
  "es_FileMD5 (to_EsDocument env v vec) = dv_FileMD5 v"
  "es_ChunkID (to_EsDocument env v vec) = dv_ChunkID v"
  by (simp_all add: to_EsDocument_def)

text \<open>
  What the clean-up of step one achieves when it is carried out.  Take two runs of
  \<open>Process\<close> for the same task, one after the other, that both succeed, with the same
  extractor, and in which the deletion of the file's old rows does not fail.  Then after
  the second run the file has as many \<open>DocumentVector\<close> rows as after the first, with
  chunk ids \<open>0..N-1\<close> in order and the same texts; every row has its document in the
  index under the id \<open><md5>_<chunk_id>\<close>, carrying that id, chunk id and text; and these
  ids are pairwise different.
\<close>

lemma Process_delete_then_insert:
  assumes "Process env1 task w0 = Some (w1, Inr ())"
    and "Process env2 task w1 = Some (w2, Inr ())"
    and "\<not> pe_delete_fault env1" and "\<not> pe_delete_fault env2"
    and "pe_ExtractText env2 = pe_ExtractText env1"
  shows "length (rows_for (task_FileMD5 task) w2) = length (rows_for (task_FileMD5 task) w1)
       \<and> map dv_ChunkID (rows_for (task_FileMD5 task) w2)
            = map int [0..<length (rows_for (task_FileMD5 task) w2)]
       \<and> map dv_TextContent (rows_for (task_FileMD5 task) w2)
            = map dv_TextContent (rows_for (task_FileMD5 task) w1)
       \<and> (\<forall>v \<in> set (rows_for (task_FileMD5 task) w2).
             \<exists>doc. w_es_index w2 (vector_id (task_FileMD5 task) (dv_ChunkID v)) = Some doc
                  \<and> es_VectorID doc = vector_id (task_FileMD5 task) (dv_ChunkID v)
                  \<and> es_FileMD5 doc = task_FileMD5 task
                  \<and> es_ChunkID doc = dv_ChunkID v
                  \<and> es_TextContent doc = dv_TextContent v)
       \<and> distinct (map (\<lambda>v. vector_id (task_FileMD5 task) (dv_ChunkID v))
                       (rows_for (task_FileMD5 task) w2))"
proof -
  let ?m = "task_FileMD5 task"
  let ?o = "''merged/'' @ task_FileName task"
  from Process_success_rows[OF assms(1,3)] obtain c1 t1 ch1 where
    r1: "w_objects w0 ?o = Some c1" "pe_ExtractText env1 c1 (task_FileName task) = Inr t1"
        "splitText t1 1000 100 = Some (Inr ch1)"
        "map dv_TextContent (rows_for ?m w1) = ch1" "w_objects w1 = w_objects w0"
    by blast
  from Process_success_rows[OF assms(2,4)] obtain c2 t2 ch2 where
    r2: "w_objects w1 ?o = Some c2" "pe_ExtractText env2 c2 (task_FileName task) = Inr t2"
        "splitText t2 1000 100 = Some (Inr ch2)"
        "map dv_ChunkID (rows_for ?m w2) = map int [0..<length ch2]"
        "map dv_TextContent (rows_for ?m w2) = ch2"
        "\<forall>v \<in> set (rows_for ?m w2).
               \<exists>vec. w_es_index w2 (vector_id ?m (dv_ChunkID v)) = Some (to_EsDocument env2 v vec)"
    by blast
  have "c2 = c1" using r1(1,5) r2(1) by simp
  then have "t2 = t1" using r1(2) r2(2) assms(5) by simp
  then have same: "ch2 = ch1" using r1(3) r2(3) by simp
  have len2: "length (rows_for ?m w2) = length ch2"
    using r2(5) by (metis length_map)
  have len1: "length (rows_for ?m w1) = length ch1"
    using r1(4) by (metis length_map)
  have md5: "\<forall>v \<in> set (rows_for ?m w2). dv_FileMD5 v = ?m" by (simp add: rows_for_def)
  have idx: "\<forall>v \<in> set (rows_for ?m w2).
             \<exists>doc. w_es_index w2 (vector_id ?m (dv_ChunkID v)) = Some doc
                  \<and> es_VectorID doc = vector_id ?m (dv_ChunkID v)
                  \<and> es_FileMD5 doc = ?m
                  \<and> es_ChunkID doc = dv_ChunkID v
                  \<and> es_TextContent doc = dv_TextContent v"
  proof
    fix v assume v: "v \<in> set (rows_for ?m w2)"
    with r2(6) obtain vec where
      "w_es_index w2 (vector_id ?m (dv_ChunkID v)) = Some (to_EsDocument env2 v vec)" by blast
    moreover have "dv_FileMD5 v = ?m" using md5 v by blast
    ultimately show "\<exists>doc. w_es_index w2 (vector_id ?m (dv_ChunkID v)) = Some doc
                  \<and> es_VectorID doc = vector_id ?m (dv_ChunkID v)
                  \<and> es_FileMD5 doc = ?m
                  \<and> es_ChunkID doc = dv_ChunkID v
                  \<and> es_TextContent doc = dv_TextContent v"
      by (simp add: to_EsDocument_fields)
  qed
  have "map (\<lambda>v. vector_id ?m (dv_ChunkID v)) (rows_for ?m w2)
        = map (vector_id ?m) (map dv_ChunkID (rows_for ?m w2))" by (simp add: comp_def)
  also have "\<dots> = map (\<lambda>i. vector_id ?m (int i)) [0..<length ch2]"
    by (simp add: r2(4) comp_def)
  finally have "distinct (map (\<lambda>v. vector_id ?m (dv_ChunkID v)) (rows_for ?m w2))"
    by (auto simp: distinct_map inj_on_def dest: vector_id_inj)
  with len1 len2 same r1(4) r2(4,5) idx show ?thesis by simp
qed


lemma splitText_hi: "splitText ''hi'' 1000 100 = Some (Inr [''hi''])"
proof -
  have r: "runes_of ''hi'' = [104, 105]" by (simp add: runes_of_def)
  have e: "string_of_runes [104, 105] = ''hi''"
    by (simp add: string_of_runes_def EncodeRune_def char_eval)
  show ?thesis by (simp add: splitText_def splitText_loop.simps slice_def r e)
qed

lemma vector_id_m_0: "vector_id ''m'' 0 = ''m_0''"
  by (simp add: vector_id_def Itoa_def digits_small char_eval)

lemma Process_example_run:
  "Process ex_process_env ex_task (ex_ingest_world rows seq index)
     = Some (ex_ingest_world (filter (\<lambda>v. dv_FileMD5 v \<noteq> ''m'') rows @ [ex_hi_row (seq + 1)]) (seq + 1)
               (index(''m_0'' \<mapsto> ex_hi_doc)), Inr ())"
  by (simp add: Process_def download_def splitText_hi DeleteByFileMD5_def new_vectors_def
      BatchCreate_def FindByFileMD5_def to_EsDocument_def IndexDocument_def vector_id_m_0 Let_def)

lemma Process_delete_then_insert_example:
  "Process ex_process_env ex_task (ex_ingest_world [] 0 Map.empty)
     = Some (ex_ingest_world [ex_hi_row 1] 1 [''m_0'' \<mapsto> ex_hi_doc], Inr ())
   \<and> Process ex_process_env ex_task (ex_ingest_world [ex_hi_row 1] 1 [''m_0'' \<mapsto> ex_hi_doc])
     = Some (ex_ingest_world [ex_hi_row 2] 2 [''m_0'' \<mapsto> ex_hi_doc], Inr ())
   \<and> \<not> pe_delete_fault ex_process_env
   \<and> length (rows_for ''m'' (ex_ingest_world [ex_hi_row 2] 2 [''m_0'' \<mapsto> ex_hi_doc])) = 1
   \<and> map dv_ChunkID (rows_for ''m'' (ex_ingest_world [ex_hi_row 2] 2 [''m_0'' \<mapsto> ex_hi_doc])) = [0]
   \<and> map dv_TextContent (rows_for ''m'' (ex_ingest_world [ex_hi_row 2] 2 [''m_0'' \<mapsto> ex_hi_doc]))
       = [''hi'']"
proof -
  have run1: "Process ex_process_env ex_task (ex_ingest_world [] 0 Map.empty)
     = Some (ex_ingest_world [ex_hi_row 1] 1 [''m_0'' \<mapsto> ex_hi_doc], Inr ())"
    using Process_example_run[of "[]" 0 Map.empty] by simp
  have run2: "Process ex_process_env ex_task (ex_ingest_world [ex_hi_row 1] 1 [''m_0'' \<mapsto> ex_hi_doc])
     = Some (ex_ingest_world [ex_hi_row 2] 2 [''m_0'' \<mapsto> ex_hi_doc], Inr ())"
    using Process_example_run[of "[ex_hi_row 1]" 1 "[''m_0'' \<mapsto> ex_hi_doc]"] by simp
  have nf: "\<not> pe_delete_fault ex_process_env" by simp
  have r1: "rows_for ''m'' (ex_ingest_world [ex_hi_row 1] 1 [''m_0'' \<mapsto> ex_hi_doc]) = [ex_hi_row 1]"
    by (simp add: rows_for_def)
  from Process_delete_then_insert[OF run1 run2 nf nf refl]
  have "length (rows_for ''m'' (ex_ingest_world [ex_hi_row 2] 2 [''m_0'' \<mapsto> ex_hi_doc]))
          = length (rows_for ''m'' (ex_ingest_world [ex_hi_row 1] 1 [''m_0'' \<mapsto> ex_hi_doc]))"
    and "map dv_ChunkID (rows_for ''m'' (ex_ingest_world [ex_hi_row 2] 2 [''m_0'' \<mapsto> ex_hi_doc]))
          = map int [0..<length (rows_for ''m'' (ex_ingest_world [ex_hi_row 2] 2 [''m_0'' \<mapsto> ex_hi_doc]))]"
    and "map dv_TextContent (rows_for ''m'' (ex_ingest_world [ex_hi_row 2] 2 [''m_0'' \<mapsto> ex_hi_doc]))
          = map dv_TextContent (rows_for ''m'' (ex_ingest_world [ex_hi_row 1] 1 [''m_0'' \<mapsto> ex_hi_doc]))"
    by simp_all
  with r1 have "length (rows_for ''m'' (ex_ingest_world [ex_hi_row 2] 2 [''m_0'' \<mapsto> ex_hi_doc])) = 1"
    and "map dv_ChunkID (rows_for ''m'' (ex_ingest_world [ex_hi_row 2] 2 [''m_0'' \<mapsto> ex_hi_doc])) = [0]"
    and "map dv_TextContent (rows_for ''m'' (ex_ingest_world [ex_hi_row 2] 2 [''m_0'' \<mapsto> ex_hi_doc])) = [''hi'']"
    by simp_all
  with run1 run2 nf show ?thesis by blast
qed


text \<open>
  Claim C4 (the code departs from it).  The error of \<open>DeleteByFileMD5\<close> is only
  logged.  A first run for the file \<open>m\<close> on an empty table leaves one row, chunk id
  \<open>0\<close>, text \<open>hi\<close>.  A second run for the same task and the same extracted text, in
  which the deletion of the old rows fails and every later call works, returns success
  as well, and then the table holds two rows for \<open>m\<close>, both with chunk id \<open>0\<close>: the old
  row was not deleted, the row count has grown from one to two, and the chunk ids are not
  \<open>0..N-1\<close>.  The index still holds the single document \<open>m_0\<close>.
\<close>

theorem Process_rerun_keeps_old_rows:
  "Process ex_process_env ex_task (ex_ingest_world [] 0 Map.empty)
     = Some (ex_ingest_world [ex_hi_row 1] 1 [''m_0'' \<mapsto> ex_hi_doc], Inr ())
   \<and> Process (ex_process_env\<lparr>pe_delete_fault := True\<rparr>) ex_task
        (ex_ingest_world [ex_hi_row 1] 1 [''m_0'' \<mapsto> ex_hi_doc])
     = Some (ex_ingest_world [ex_hi_row 1, ex_hi_row 2] 2 [''m_0'' \<mapsto> ex_hi_doc], Inr ())
   \<and> length (rows_for ''m'' (ex_ingest_world [ex_hi_row 1] 1 [''m_0'' \<mapsto> ex_hi_doc])) = 1
   \<and> length (rows_for ''m'' (ex_ingest_world [ex_hi_row 1, ex_hi_row 2] 2 [''m_0'' \<mapsto> ex_hi_doc])) = 2
   \<and> map dv_ChunkID (rows_for ''m'' (ex_ingest_world [ex_hi_row 1, ex_hi_row 2] 2 [''m_0'' \<mapsto> ex_hi_doc]))
       = [0, 0]"
proof -
  have run1: "Process ex_process_env ex_task (ex_ingest_world [] 0 Map.empty)
     = Some (ex_ingest_world [ex_hi_row 1] 1 [''m_0'' \<mapsto> ex_hi_doc], Inr ())"
    using Process_example_run[of "[]" 0 Map.empty] by simp
  have run2: "Process (ex_process_env\<lparr>pe_delete_fault := True\<rparr>) ex_task
        (ex_ingest_world [ex_hi_row 1] 1 [''m_0'' \<mapsto> ex_hi_doc])
     = Some (ex_ingest_world [ex_hi_row 1, ex_hi_row 2] 2 [''m_0'' \<mapsto> ex_hi_doc], Inr ())"
    by (simp add: Process_def download_def splitText_hi DeleteByFileMD5_def new_vectors_def
        BatchCreate_def FindByFileMD5_def to_EsDocument_def IndexDocument_def vector_id_m_0 Let_def)
  have rows: "length (rows_for ''m'' (ex_ingest_world [ex_hi_row 1] 1 [''m_0'' \<mapsto> ex_hi_doc])) = 1"
    "length (rows_for ''m'' (ex_ingest_world [ex_hi_row 1, ex_hi_row 2] 2 [''m_0'' \<mapsto> ex_hi_doc])) = 2"
    "map dv_ChunkID (rows_for ''m'' (ex_ingest_world [ex_hi_row 1, ex_hi_row 2] 2 [''m_0'' \<mapsto> ex_hi_doc]))
       = [0, 0]"
    by (simp_all add: rows_for_def)
  from run1 run2 rows show ?thesis by blast
qed
section \<open>The snippet limit of the chat context block\<close>

lemma decode_zhong:
  "decode_runes (0xE4 # 0xB8 # 0xAD # rest) = 0x4E2D # decode_runes rest"
  by (simp add: Let_def)

lemma decode_replicate_zhong:
  "decode_runes (concat (replicate n [0xE4, 0xB8, 0xAD])) = replicate n 0x4E2D"
  by (induction n) (simp_all add: decode_zhong del: decode_runes.simps(2))

lemma runes_of_replicate_zhong:
  "runes_of (concat (replicate n [CHR 0xE4, CHR 0xB8, CHR 0xAD])) = replicate n 0x4E2D"
proof -
  have "map of_char (concat (replicate n [CHR 0xE4, CHR 0xB8, CHR 0xAD]))
        = concat (replicate n [0xE4, 0xB8, 0xAD :: nat])"
    by (induction n) simp_all
  then show ?thesis by (simp add: runes_of_def decode_replicate_zhong)
qed

lemma concat_replicate_Suc_right:
  "concat (replicate (Suc k) xs) = concat (replicate k xs) @ xs"
  by (induction k) simp_all

lemma take_replicate_triple:
  "take (3 * k + 1) (concat (replicate (Suc k) [a, b, c])) = concat (replicate k [a, b, c]) @ [a]"
proof -
  have "length (concat (replicate k [a, b, c])) = 3 * k"
    by (simp add: length_concat sum_list_replicate)
  then show ?thesis
    by (simp only: concat_replicate_Suc_right) simp
qed

lemma char_of_49: "char_of (49::nat) = CHR ''1''"
  by code_simp

lemma Itoa_1: "Itoa 1 = ''1''"
  by (simp add: Itoa_def digits.simps char_of_49)

text \<open>
  Claim C9 (the code departs from it).  A hit whose text is 334 copies of the three-byte
  character U+4E2D has 334 code points, well under 1000, yet \<open>buildContextText\<close> cuts it
  after 1000 bytes (333 characters and the first byte of the next one) and appends the
  ellipsis, so the emitted line is not the line with the whole text: the snippet limit
  counts bytes, not code points.
\<close>

theorem buildContextText_byte_truncation:
  "RuneCountInString (concat (replicate 334 [CHR 0xE4, CHR 0xB8, CHR 0xAD])) = 334
   \<and> buildContextText
        [\<lparr>dto_FileMD5 = ''m'', dto_FileName = ''a.txt'', dto_ChunkID = 0,
          dto_TextContent = concat (replicate 334 [CHR 0xE4, CHR 0xB8, CHR 0xAD]),
          dto_Score = 1, dto_UserID = ''1'', dto_OrgTag = ''t'', dto_IsPublic = False\<rparr>]
      = ''[1] (a.txt) '' @ concat (replicate 333 [CHR 0xE4, CHR 0xB8, CHR 0xAD])
          @ [CHR 0xE4] @ [CHR 0xE2, CHR 0x80, CHR 0xA6] @ [CHR 0x0A]
   \<and> buildContextText
        [\<lparr>dto_FileMD5 = ''m'', dto_FileName = ''a.txt'', dto_ChunkID = 0,
          dto_TextContent = concat (replicate 334 [CHR 0xE4, CHR 0xB8, CHR 0xAD]),
          dto_Score = 1, dto_UserID = ''1'', dto_OrgTag = ''t'', dto_IsPublic = False\<rparr>]
      \<noteq> ''[1] (a.txt) '' @ concat (replicate 334 [CHR 0xE4, CHR 0xB8, CHR 0xAD]) @ [CHR 0x0A]"
proof -
  let ?z = "[CHR 0xE4, CHR 0xB8, CHR 0xAD]"
  have len: "length (concat (replicate 334 ?z)) = 1002"
    by (simp add: length_concat sum_list_replicate)
  have "take (3 * 333 + 1) (concat (replicate (Suc 333) ?z)) = concat (replicate 333 ?z) @ [CHR 0xE4]"
    by (rule take_replicate_triple)
  then have tk: "take 1000 (concat (replicate 334 ?z)) = concat (replicate 333 ?z) @ [CHR 0xE4]"
    by simp
  have cnt: "RuneCountInString (concat (replicate 334 ?z)) = 334"
    by (simp add: RuneCountInString_def runes_of_replicate_zhong)
  have run: "buildContextText
        [\<lparr>dto_FileMD5 = ''m'', dto_FileName = ''a.txt'', dto_ChunkID = 0,
          dto_TextContent = concat (replicate 334 ?z),
          dto_Score = 1, dto_UserID = ''1'', dto_OrgTag = ''t'', dto_IsPublic = False\<rparr>]
      = ''[1] (a.txt) '' @ concat (replicate 333 ?z) @ [CHR 0xE4] @ [CHR 0xE2, CHR 0x80, CHR 0xA6] @ [CHR 0x0A]"
    by (simp add: buildContextText_def context_line_def maxSnippetLen_def ellipsis_def
        len tk Itoa_1 Let_def)
  have "length (''[1] (a.txt) '' @ concat (replicate 333 ?z) @ [CHR 0xE4] @ [CHR 0xE2, CHR 0x80, CHR 0xA6] @ [CHR 0x0A])
        \<noteq> length (''[1] (a.txt) '' @ concat (replicate 334 ?z) @ [CHR 0x0A])"
    by (simp add: length_concat sum_list_replicate)
  then have "''[1] (a.txt) '' @ concat (replicate 333 ?z) @ [CHR 0xE4] @ [CHR 0xE2, CHR 0x80, CHR 0xA6] @ [CHR 0x0A]
        \<noteq> ''[1] (a.txt) '' @ concat (replicate 334 ?z) @ [CHR 0x0A]"
    by metis
  with run cnt show ?thesis by simp
qed

end
